theory Spec2Isabelle
  imports Main "HOL-Library.Sublist"
begin

section \<open>JavaScript values that are thrown and caught\<close>

text \<open>
  A rejected promise or a \<^verbatim>\<open>throw\<close> carries a value. The code only ever asks two things of
  it: whether it is an instance of \<^verbatim>\<open>Error\<close>, and, if so, its \<^verbatim>\<open>message\<close>. \<open>Error m\<close> is an
  error object built by \<^verbatim>\<open>new Error(m)\<close> (by this code or by a library), \<open>TypeError m\<close> is the
  error the runtime raises when a property of \<^verbatim>\<open>undefined\<close> or \<^verbatim>\<open>null\<close> is read (also an
  instance of \<^verbatim>\<open>Error\<close>), and \<open>NonError\<close> is any thrown value that is not an \<^verbatim>\<open>Error\<close>.
\<close>

datatype js_error = Error string | TypeError string | NonError

fun instanceof_Error :: "js_error \<Rightarrow> bool" where
  "instanceof_Error (Error m) = True"
| "instanceof_Error (TypeError m) = True"
| "instanceof_Error NonError = False"

definition undefined_read :: js_error where
  \<comment> \<open>reading a property of \<^verbatim>\<open>undefined\<close>; the message text is the engine's\<close>
  "undefined_read = TypeError ''Cannot read properties of undefined''"

definition errorMessage_of :: "js_error \<Rightarrow> string" where
  \<comment> \<open>\<^verbatim>\<open>err instanceof Error ? err.message : 'An unknown error occurred.'\<close>\<close>
  "errorMessage_of err =
     (case err of Error m \<Rightarrow> m | TypeError m \<Rightarrow> m | NonError \<Rightarrow> ''An unknown error occurred.'')"

definition truthy :: "string option \<Rightarrow> bool" where
  \<comment> \<open>a string-or-undefined value in a boolean position: defined and not the empty string\<close>
  "truthy v = (case v of None \<Rightarrow> False | Some s \<Rightarrow> s \<noteq> '''')"

fun str_includes :: "string \<Rightarrow> string \<Rightarrow> bool" where
  \<comment> \<open>\<^verbatim>\<open>String.prototype.includes\<close>\<close>
  "str_includes [] sub = (sub = [])"
| "str_includes (c # cs) sub = (prefix sub (c # cs) \<or> str_includes cs sub)"

text \<open>
  The values \<^verbatim>\<open>JSON.parse\<close> returns. An object lists each of its keys once; numbers are not
  looked at by the code.
\<close>

datatype json =
    JNull | JBool bool | JNumber int | JString string
  | JArray "json list" | JObject "(string \<times> json) list"


section \<open>The external service and the log of calls made to it\<close>

datatype part = InlineData string string | Text string

datatype content_config =
    Default_config
  | Json_schema_config string string
  | Speech_config string

datatype image_aspect = AR_1_1 | AR_3_4 | AR_4_3 | AR_9_16 | AR_16_9

datatype video_aspect = V_16_9 | V_16_10

datatype PersonGeneration = ALLOW_ALL | DISALLOW_ALL

text \<open>
  The request of a video job. The duration is passed through as it is given (the form offers
  whole seconds); the start image, when there is one, is the pair of its bytes and its MIME
  type.
\<close>

record VideoConfig =
  numberOfVideos :: nat
  config_aspectRatio :: video_aspect
  durationSeconds :: int
  personGeneration :: PersonGeneration

record VideoRequest =
  model :: string
  request_prompt :: string
  config :: VideoConfig
  request_image :: "(string \<times> string) option"

text \<open>
  An operation as the code reads it: the handle the service owns, the \<^verbatim>\<open>done\<close> flag (only its
  truthiness is read, so a missing flag is \<open>False\<close>), and the value of the optional chain
  \<^verbatim>\<open>operation.response?.generatedVideos?.[0]?.video?.uri\<close>, which never throws.
\<close>

record VideoOperation =
  op_name :: string
  op_done :: bool
  op_uri :: "string option"

record GenerateContentResponse =
  response_text :: "string option"
  inline_audio :: "string option"

text \<open>
  \<^verbatim>\<open>response.generatedImages[0].image.imageBytes\<close>: the list may be missing, entry 0 may be
  missing, its \<^verbatim>\<open>image\<close> may be missing, and so may the bytes of the image.
\<close>

type_synonym GeneratedImage = "string option option"

record GenerateImagesResponse =
  generatedImages :: "GeneratedImage list option"

record Response =
  ok :: bool
  statusText :: string
  body_text :: "js_error + string"
  body_blob :: "js_error + string"

text \<open>
  What the code asks of the outside world, with the arguments it passes: a request for
  content (key of the client, model, parts of the contents, configuration), for images (key,
  model, prompt, number of images, output MIME type, aspect ratio), the submission of a video
  job (key, request), a delay in milliseconds, a status query (key, operation passed), and
  the download of a URL.
\<close>

datatype event =
    GenerateContent "string option" string "part list" content_config
  | GenerateImages "string option" string string nat string image_aspect
  | GenerateVideos string VideoRequest
  | Sleep nat
  | GetVideosOperation string VideoOperation
  | Fetch string

text \<open>
  The environment of the Generation Client. Every answer of the outside world is a function
  of the log of everything this code has asked so far, the current request being the last
  entry of the log: this covers every deterministic service, and a theorem for all
  environments covers every run. \<open>API_KEY\<close> is \<^verbatim>\<open>process.env.API_KEY\<close>, which may change while
  an operation runs. \<open>JSON_parse\<close> and \<open>String_trim\<close> are the runtime's \<^verbatim>\<open>JSON.parse\<close> and
  \<^verbatim>\<open>String.prototype.trim\<close>, and \<open>createObjectURL\<close> is \<^verbatim>\<open>URL.createObjectURL\<close>.
\<close>

record env =
  API_KEY :: "event list \<Rightarrow> string option"
  generateContent :: "event list \<Rightarrow> js_error + GenerateContentResponse"
  generateImages :: "event list \<Rightarrow> js_error + GenerateImagesResponse"
  generateVideos :: "event list \<Rightarrow> js_error + VideoOperation"
  getVideosOperation :: "event list \<Rightarrow> js_error + VideoOperation"
  fetch :: "event list \<Rightarrow> js_error + Response"
  JSON_parse :: "string \<Rightarrow> js_error + json"
  String_trim :: "string \<Rightarrow> string"
  createObjectURL :: "string \<Rightarrow> string"

text \<open>
  The client object of the SDK: \<^verbatim>\<open>new GoogleGenAI({ apiKey })\<close> makes no request. The browser
  build of the SDK refuses to build a client when the key is missing (\<^verbatim>\<open>apiKey == null\<close>) and
  throws an \<^verbatim>\<open>Error\<close>; with a key, the empty one too, the client is built and carries the key.
\<close>

definition missing_key :: js_error where
  \<comment> \<open>what the constructor throws; the message text is the SDK's\<close>
  "missing_key = Error ''An API Key must be set when running in a browser''"

definition GoogleGenAI_new :: "string option \<Rightarrow> js_error + string option" where
  "GoogleGenAI_new apiKey =
     (case apiKey of None \<Rightarrow> Inl missing_key | Some k \<Rightarrow> Inr (Some k))"


section \<open>The Generation Client\<close>

text \<open>
  Each of the first four operations builds its client before its \<^verbatim>\<open>try\<close> block: what the
  constructor throws is not caught, and nothing is requested. \<open>generateVideo\<close> builds its
  client after it has checked the key.
\<close>

subsection \<open>generateIdeas\<close>






subsection \<open>generateStoryFromImage\<close>



subsection \<open>generateSpeechFromText\<close>


subsection \<open>generateImageFromPrompt\<close>

definition first_imageBytes :: "GenerateImagesResponse \<Rightarrow> js_error + string option" where
  \<comment> \<open>\<^verbatim>\<open>response.generatedImages[0].image.imageBytes\<close>\<close>
  "first_imageBytes response =
     (case generatedImages response of
        None \<Rightarrow> Inl undefined_read
      | Some [] \<Rightarrow> Inl undefined_read
      | Some (None # rest) \<Rightarrow> Inl undefined_read
      | Some (Some imageBytes # rest) \<Rightarrow> Inr imageBytes)"

definition image_catch :: "js_error \<Rightarrow> js_error" where
  "image_catch err =
     (if instanceof_Error err then err
      else Error ''An unknown error occurred during image generation.'')"

definition generateImageFromPrompt ::
  "env \<Rightarrow> string \<Rightarrow> image_aspect \<Rightarrow> event list \<Rightarrow> (js_error + string) \<times> event list" where
  "generateImageFromPrompt env prompt aspectRatio log =
     (case GoogleGenAI_new (API_KEY env log) of
        Inl err \<Rightarrow> (Inl err, log)
      | Inr imageAI \<Rightarrow>
          (let log1 = log @ [GenerateImages imageAI ''imagen-4.0-generate-001'' prompt 1
                               ''image/jpeg'' aspectRatio]
           in (case generateImages env log1 of
                 Inl err \<Rightarrow> (Inl (image_catch err), log1)
               | Inr response \<Rightarrow>
                   (case first_imageBytes response of
                      Inl err \<Rightarrow> (Inl (image_catch err), log1)
                    | Inr base64ImageBytes \<Rightarrow>
                        if \<not> truthy base64ImageBytes
                        then (Inl (image_catch (Error
                                ''Image generation succeeded, but no image data was returned.'')),
                              log1)
                        else (Inr (''data:image/jpeg;base64,'' @ the base64ImageBytes), log1)))))"

subsection \<open>generateVideo\<close>

definition requestPayload ::
  "string \<Rightarrow> video_aspect \<Rightarrow> int \<Rightarrow> bool \<Rightarrow> string option \<Rightarrow> string option \<Rightarrow> VideoRequest" where
  "requestPayload prompt aspectRatio duration allowPeople base64Image mimeType =
     \<lparr>model = ''veo-2.0-generate-001'',
      request_prompt = prompt,
      config = \<lparr>numberOfVideos = 1, config_aspectRatio = aspectRatio,
                durationSeconds = duration,
                personGeneration = (if allowPeople then ALLOW_ALL else DISALLOW_ALL)\<rparr>,
      request_image = (if truthy base64Image \<and> truthy mimeType
                       then Some (the base64Image, the mimeType) else None)\<rparr>"

text \<open>
  The polling loop \<^verbatim>\<open>while (!operation.done)\<close> has no bound: a service that never reports
  \<^verbatim>\<open>done\<close> keeps it running for ever, which is the value \<open>None\<close>.
\<close>

partial_function (option) poll_until_done ::
  "env \<Rightarrow> string \<Rightarrow> VideoOperation \<Rightarrow> event list \<Rightarrow> ((js_error + VideoOperation) \<times> event list) option"
where
  "poll_until_done env apiKey operation log =
     (if op_done operation then Some (Inr operation, log)
      else (let log1 = log @ [Sleep 10000];
                log2 = log1 @ [GetVideosOperation apiKey operation]
            in (case getVideosOperation env log2 of
                  Inl err \<Rightarrow> Some (Inl err, log2)
                | Inr operation' \<Rightarrow> poll_until_done env apiKey operation' log2)))"

definition download ::
  "env \<Rightarrow> string \<Rightarrow> VideoOperation \<Rightarrow> event list \<Rightarrow> (js_error + string) \<times> event list" where
  "download env apiKey operation log =
     (let downloadLink = op_uri operation
      in if \<not> truthy downloadLink
         then (Inl (Error ''Video generation succeeded, but no download link was provided.''), log)
         else (let log1 = log @ [Fetch (the downloadLink @ ''&key='' @ apiKey)]
               in (case fetch env log1 of
                     Inl err \<Rightarrow> (Inl err, log1)
                   | Inr response \<Rightarrow>
                       if \<not> ok response
                       then (case body_text response of
                               Inl err \<Rightarrow> (Inl err, log1)
                             | Inr errorBody \<Rightarrow>
                                 (Inl (Error (''Failed to download video: '' @ statusText response
                                              @ ''. Details: '' @ errorBody)), log1))
                       else (case body_blob response of
                               Inl err \<Rightarrow> (Inl err, log1)
                             | Inr videoBlob \<Rightarrow> (Inr (createObjectURL env videoBlob), log1)))))"

definition video_body ::
  "env \<Rightarrow> string \<Rightarrow> VideoRequest \<Rightarrow> event list \<Rightarrow> ((js_error + string) \<times> event list) option" where
  \<comment> \<open>the \<^verbatim>\<open>try\<close> block\<close>
  "video_body env apiKey payload log =
     (let log1 = log @ [GenerateVideos apiKey payload]
      in (case generateVideos env log1 of
            Inl err \<Rightarrow> Some (Inl err, log1)
          | Inr operation \<Rightarrow>
              (case poll_until_done env apiKey operation log1 of
                 None \<Rightarrow> None
               | Some (Inl err, log2) \<Rightarrow> Some (Inl err, log2)
               | Some (Inr operation', log2) \<Rightarrow> Some (download env apiKey operation' log2))))"

definition video_catch :: "js_error \<Rightarrow> js_error" where
  "video_catch err =
     (if instanceof_Error err then err
      else Error ''An unknown error occurred during video generation.'')"

definition generateVideo ::
  "env \<Rightarrow> string \<Rightarrow> video_aspect \<Rightarrow> int \<Rightarrow> bool \<Rightarrow> string option \<Rightarrow> string option \<Rightarrow> event list
   \<Rightarrow> ((js_error + string) \<times> event list) option" where
  "generateVideo env prompt aspectRatio duration allowPeople base64Image mimeType log =
     (let apiKey = API_KEY env log
      in if \<not> truthy apiKey then Some (Inl (Error ''API key is not available.''), log)
         else (case GoogleGenAI_new apiKey of
                 Inl err \<Rightarrow> Some (Inl err, log)
               | Inr videoAI \<Rightarrow>
                   (case video_body env (the videoAI)
                           (requestPayload prompt aspectRatio duration allowPeople base64Image
                              mimeType)
                           log of
                      None \<Rightarrow> None
                    | Some (Inl err, log') \<Rightarrow> Some (Inl (video_catch err), log')
                    | Some (Inr url, log') \<Rightarrow> Some (Inr url, log'))))"


section \<open>State shared by the components gated on the API key\<close>

text \<open>
  Each component keeps its state in React state variables. A setter call is modelled as
  the update of the state at the place of the call: React applies the updates of one
  component in the order of the calls, and an updater function
  (\<^verbatim>\<open>setX(prev => ...)\<close>) receives the result of all earlier updates.
  \<open>t\<close> is the translation function of the language context.
\<close>

record component_state =
  isKeyReady :: bool
  isCheckingKey :: bool
  isLoading :: bool
  error :: string


section \<open>The IdeaGenerator component\<close>

datatype batch_type = images | videos

record BatchJob =
  job_type :: batch_type
  progress :: nat
  total :: nat

record content =
  image :: "string option"
  video :: "string option"

record generating =
  image_flag :: "bool option"
  video_flag :: "bool option"

record idea_state = component_state +
  ideas :: "string list"
  generatedContent :: "string \<rightharpoonup> content"
  generatingState :: "string \<rightharpoonup> generating"
  batchJob :: "BatchJob option"

definition content_of :: "content option \<Rightarrow> content" where
  \<comment> \<open>the spread \<^verbatim>\<open>{ ...prev[idea] }\<close>: a missing entry spreads to the empty object\<close>
  "content_of c = (case c of None \<Rightarrow> \<lparr>image = None, video = None\<rparr> | Some x \<Rightarrow> x)"

definition flags_of :: "generating option \<Rightarrow> generating" where
  "flags_of g = (case g of None \<Rightarrow> \<lparr>image_flag = None, video_flag = None\<rparr> | Some x \<Rightarrow> x)"

definition IdeaGenerator_handleSelectKey :: "js_error + unit \<Rightarrow> idea_state \<Rightarrow> idea_state" where
  \<comment> \<open>the first argument is how \<^verbatim>\<open>await window.aistudio.openSelectKey()\<close> settles\<close>
  "IdeaGenerator_handleSelectKey opened st =
     (case opened of
        Inl err \<Rightarrow> st
      | Inr u \<Rightarrow> st\<lparr>isKeyReady := True, error := ''''\<rparr>)"

definition handleGenerate_begin :: "idea_state \<Rightarrow> idea_state" where
  \<comment> \<open>the state in which \<^verbatim>\<open>generateIdeas()\<close> is called\<close>
  "handleGenerate_begin st =
     st\<lparr>isLoading := True, error := '''', ideas := [], generatedContent := Map.empty,
        generatingState := Map.empty, batchJob := None\<rparr>"

definition handleGenerate_settled ::
  "(string \<Rightarrow> string) \<Rightarrow> js_error + string list \<Rightarrow> idea_state \<Rightarrow> idea_state" where
  \<comment> \<open>the rest of \<^verbatim>\<open>try\<close>, then \<^verbatim>\<open>catch\<close>, then \<^verbatim>\<open>finally\<close>\<close>
  "handleGenerate_settled t settled st =
     (case settled of
        Inr generatedIdeas \<Rightarrow> st\<lparr>ideas := generatedIdeas\<rparr>
      | Inl err \<Rightarrow> st\<lparr>error := t ''idea.error.apiFail'' @ '' '' @ errorMessage_of err\<rparr>)
     \<lparr>isLoading := False\<rparr>"

definition IdeaGenerator_handleGenerate ::
  "(string \<Rightarrow> string) \<Rightarrow> js_error + string list \<Rightarrow> idea_state \<Rightarrow> idea_state" where
  \<comment> \<open>the second argument is how the promise of \<^verbatim>\<open>generateIdeas()\<close>, of the declared type
      \<^verbatim>\<open>Promise<string[]>\<close>, settles\<close>
  "IdeaGenerator_handleGenerate t settled st =
     handleGenerate_settled t settled (handleGenerate_begin st)"

subsection \<open>One timeline for setter calls and requests\<close>

text \<open>
  The two batch handlers are followed through one list of actions, the timeline: every call
  of a state setter, every call of a pipeline, every request a pipeline makes to the outside
  world and, for the parallel batch, every settlement of a promise, in the order in which
  they happen. A run of a handler is the component state, the log of requests and the
  timeline. Each setter changes the state and enters its call in the timeline, and the
  handlers change the state through the setters only.
\<close>

datatype action =
    SetError string
  | SetBatchJob "BatchJob option"
  | SetBatchJob_progress nat
  | SetBatchJob_increment
  | SetGeneratingState_all "string list"
  | SetGeneratingState_image string bool
  | SetGeneratingState_video string bool
  | SetGeneratedContent_image string string
  | SetGeneratedContent_video string string
  | Call_generateImageFromPrompt string
  | Call_generateVideo string
  | Asked event
  | Settles nat

record idea_run =
  ui :: idea_state
  net :: "event list"
  timeline :: "action list"

definition setError :: "string \<Rightarrow> 'a idea_run_scheme \<Rightarrow> 'a idea_run_scheme" where
  "setError message s =
     s\<lparr>ui := (ui s)\<lparr>error := message\<rparr>, timeline := timeline s @ [SetError message]\<rparr>"

definition setBatchJob :: "BatchJob option \<Rightarrow> 'a idea_run_scheme \<Rightarrow> 'a idea_run_scheme" where
  "setBatchJob job s =
     s\<lparr>ui := (ui s)\<lparr>batchJob := job\<rparr>, timeline := timeline s @ [SetBatchJob job]\<rparr>"

definition setBatchJob_progress :: "nat \<Rightarrow> 'a idea_run_scheme \<Rightarrow> 'a idea_run_scheme" where
  \<comment> \<open>\<^verbatim>\<open>setBatchJob(prev => prev ? { ...prev, progress: currentProgress } : null)\<close>\<close>
  "setBatchJob_progress n s =
     s\<lparr>ui := (ui s)\<lparr>batchJob := (case batchJob (ui s) of
                                      Some prev \<Rightarrow> Some (prev\<lparr>progress := n\<rparr>)
                                    | None \<Rightarrow> None)\<rparr>,
       timeline := timeline s @ [SetBatchJob_progress n]\<rparr>"

definition setBatchJob_increment :: "'a idea_run_scheme \<Rightarrow> 'a idea_run_scheme" where
  \<comment> \<open>\<^verbatim>\<open>setBatchJob(prev => prev ? { ...prev, progress: prev.progress + 1 } : null)\<close>\<close>
  "setBatchJob_increment s =
     s\<lparr>ui := (ui s)\<lparr>batchJob := (case batchJob (ui s) of
                                      Some prev \<Rightarrow> Some (prev\<lparr>progress := progress prev + 1\<rparr>)
                                    | None \<Rightarrow> None)\<rparr>,
       timeline := timeline s @ [SetBatchJob_increment]\<rparr>"

definition mark_images :: "idea_state \<Rightarrow> string \<rightharpoonup> generating" where
  \<comment> \<open>\<^verbatim>\<open>ideas.reduce((acc, idea) => ({ ...acc, [idea]: { ...generatingState[idea], image: true } }), {})\<close>\<close>
  "mark_images st =
     foldl (\<lambda>acc idea. acc(idea \<mapsto> (flags_of (generatingState st idea))\<lparr>image_flag := Some True\<rparr>))
       Map.empty (ideas st)"

definition setGeneratingState_all :: "idea_state \<Rightarrow> 'a idea_run_scheme \<Rightarrow> 'a idea_run_scheme" where
  \<comment> \<open>the value is computed from the state the handler was created with\<close>
  "setGeneratingState_all st s =
     s\<lparr>ui := (ui s)\<lparr>generatingState := mark_images st\<rparr>,
       timeline := timeline s @ [SetGeneratingState_all (ideas st)]\<rparr>"

definition setGeneratingState_image ::
  "string \<Rightarrow> bool \<Rightarrow> 'a idea_run_scheme \<Rightarrow> 'a idea_run_scheme" where
  \<comment> \<open>\<^verbatim>\<open>setGeneratingState(prev => ({ ...prev, [idea]: { ...prev[idea], image: b } }))\<close>\<close>
  "setGeneratingState_image idea b s =
     s\<lparr>ui := (ui s)\<lparr>generatingState :=
            (generatingState (ui s))
              (idea \<mapsto> (flags_of (generatingState (ui s) idea))\<lparr>image_flag := Some b\<rparr>)\<rparr>,
       timeline := timeline s @ [SetGeneratingState_image idea b]\<rparr>"

definition setGeneratingState_video ::
  "string \<Rightarrow> bool \<Rightarrow> 'a idea_run_scheme \<Rightarrow> 'a idea_run_scheme" where
  \<comment> \<open>\<^verbatim>\<open>setGeneratingState(prev => ({ ...prev, [idea]: { ...prev[idea], video: b } }))\<close>\<close>
  "setGeneratingState_video idea b s =
     s\<lparr>ui := (ui s)\<lparr>generatingState :=
            (generatingState (ui s))
              (idea \<mapsto> (flags_of (generatingState (ui s) idea))\<lparr>video_flag := Some b\<rparr>)\<rparr>,
       timeline := timeline s @ [SetGeneratingState_video idea b]\<rparr>"

definition setGeneratedContent_image ::
  "string \<Rightarrow> string \<Rightarrow> 'a idea_run_scheme \<Rightarrow> 'a idea_run_scheme" where
  \<comment> \<open>\<^verbatim>\<open>setGeneratedContent(prev => ({ ...prev, [idea]: { ...prev[idea], image: imageUrl } }))\<close>\<close>
  "setGeneratedContent_image idea imageUrl s =
     s\<lparr>ui := (ui s)\<lparr>generatedContent :=
            (generatedContent (ui s))
              (idea \<mapsto> (content_of (generatedContent (ui s) idea))\<lparr>image := Some imageUrl\<rparr>)\<rparr>,
       timeline := timeline s @ [SetGeneratedContent_image idea imageUrl]\<rparr>"

definition setGeneratedContent_video ::
  "string \<Rightarrow> string \<Rightarrow> 'a idea_run_scheme \<Rightarrow> 'a idea_run_scheme" where
  \<comment> \<open>\<^verbatim>\<open>setGeneratedContent(prev => ({ ...prev, [idea]: { ...prev[idea], video: videoUrl } }))\<close>\<close>
  "setGeneratedContent_video idea videoUrl s =
     s\<lparr>ui := (ui s)\<lparr>generatedContent :=
            (generatedContent (ui s))
              (idea \<mapsto> (content_of (generatedContent (ui s) idea))\<lparr>video := Some videoUrl\<rparr>)\<rparr>,
       timeline := timeline s @ [SetGeneratedContent_video idea videoUrl]\<rparr>"

definition requests_made :: "event list \<Rightarrow> 'a idea_run_scheme \<Rightarrow> 'a idea_run_scheme" where
  \<comment> \<open>a pipeline, called with the log of the run, has brought the log to \<open>log1\<close>: the requests it
      has added enter the timeline\<close>
  "requests_made log1 s =
     s\<lparr>net := log1, timeline := timeline s @ map Asked (drop (length (net s)) log1)\<rparr>"

subsection \<open>handleGenerateAllImages\<close>

text \<open>
  \<^verbatim>\<open>ideas.map(idea => generateImageFromPrompt(idea, '16:9')...)\<close> calls the pipeline once per
  prompt, in list order, without waiting: each call runs up to its request, and the result
  is the list of promises, each with its prompt and with the way it will settle.
\<close>

fun start_images ::
  "env \<Rightarrow> string list \<Rightarrow> idea_run \<Rightarrow> (string \<times> (js_error + string)) list \<times> idea_run" where
  "start_images env [] s = ([], s)"
| "start_images env (idea # rest) s =
     (case generateImageFromPrompt env idea AR_16_9 (net s) of
        (outcome, log1) \<Rightarrow>
          (case start_images env rest
                  (requests_made log1
                     (s\<lparr>timeline := timeline s @ [Call_generateImageFromPrompt idea]\<rparr>)) of
             (promises, s2) \<Rightarrow> ((idea, outcome) # promises, s2)))"

definition settle_image :: "(string \<times> (js_error + string)) list \<Rightarrow> idea_run \<Rightarrow> nat \<Rightarrow> idea_run" where
  \<comment> \<open>promise number \<open>i\<close> settles: \<^verbatim>\<open>then\<close> or \<^verbatim>\<open>catch\<close> (which only logs), then \<^verbatim>\<open>finally\<close>\<close>
  "settle_image imagePromises s i =
     (if i < length imagePromises
      then (case imagePromises ! i of
              (idea, outcome) \<Rightarrow>
                setGeneratingState_image idea False
                  (setBatchJob_increment
                     (case outcome of
                        Inr imageUrl \<Rightarrow>
                          setGeneratedContent_image idea imageUrl
                            (s\<lparr>timeline := timeline s @ [Settles i]\<rparr>)
                      | Inl err \<Rightarrow> s\<lparr>timeline := timeline s @ [Settles i]\<rparr>)))
      else s)"

definition images_begin :: "idea_state \<times> event list \<Rightarrow> idea_run" where
  "images_begin s =
     (case s of (st, log) \<Rightarrow>
        setGeneratingState_all st
          (setBatchJob (Some \<lparr>job_type = images, progress = 0, total = length (ideas st)\<rparr>)
             (setError '''' \<lparr>ui = st, net = log, timeline = []\<rparr>)))"

definition images_all_settled :: "env \<Rightarrow> nat list \<Rightarrow> idea_state \<times> event list \<Rightarrow> idea_run" where
  \<comment> \<open>the run when the promises have settled in the order \<open>order\<close>, which the network chooses;
      with all of them in \<open>order\<close>, the run when \<^verbatim>\<open>Promise.all(imagePromises)\<close> resolves\<close>
  "images_all_settled env order s =
     (case start_images env (ideas (fst s)) (images_begin s) of
        (imagePromises, s1) \<Rightarrow> foldl (settle_image imagePromises) s1 order)"

definition handleGenerateAllImages ::
  "env \<Rightarrow> (string \<Rightarrow> string) \<Rightarrow> nat list \<Rightarrow> idea_state \<times> event list \<Rightarrow> idea_run" where
  "handleGenerateAllImages env t order s =
     (case s of (st, log) \<Rightarrow>
        if \<not> isKeyReady st
        then setError (t ''idea.error.apiKey'') \<lparr>ui = st, net = log, timeline = []\<rparr>
        else setBatchJob None (images_all_settled env order s))"

subsection \<open>handleGenerateAllVideos\<close>

text \<open>
  A run of the \<^verbatim>\<open>for\<close> loop has, besides, the local counter, the prompts \<^verbatim>\<open>generateVideo\<close> has
  been called with so far, and whether the loop was left by \<^verbatim>\<open>break\<close>.
\<close>

record video_run = idea_run +
  currentProgress :: nat
  attempted :: "string list"
  broke :: bool

definition call_generateVideo :: "string \<Rightarrow> video_run \<Rightarrow> video_run" where
  \<comment> \<open>\<^verbatim>\<open>generateVideo(idea, '16:9', 8, true)\<close> is called\<close>
  "call_generateVideo idea r =
     r\<lparr>timeline := timeline r @ [Call_generateVideo idea], attempted := attempted r @ [idea]\<rparr>"

definition video_finally :: "string \<Rightarrow> video_run \<Rightarrow> video_run" where
  \<comment> \<open>the \<^verbatim>\<open>finally\<close> block\<close>
  "video_finally idea r =
     setGeneratingState_video idea False
       (setBatchJob_progress (currentProgress r + 1)
          (r\<lparr>currentProgress := currentProgress r + 1\<rparr>))"

definition iteration_succeeded :: "string \<Rightarrow> string \<Rightarrow> event list \<Rightarrow> video_run \<Rightarrow> video_run" where
  \<comment> \<open>one pass of the loop body whose \<^verbatim>\<open>await generateVideo(...)\<close> resolved, having brought the
      log to \<open>log1\<close>: the rest of \<^verbatim>\<open>try\<close>, then \<^verbatim>\<open>finally\<close>\<close>
  "iteration_succeeded idea videoUrl log1 r =
     video_finally idea
       (setGeneratedContent_video idea videoUrl
          (requests_made log1
             (call_generateVideo idea (setGeneratingState_video idea True r))))"

definition iteration_failed ::
  "(string \<Rightarrow> string) \<Rightarrow> string \<Rightarrow> js_error \<Rightarrow> event list \<Rightarrow> video_run \<Rightarrow> video_run" where
  \<comment> \<open>one pass whose \<^verbatim>\<open>await\<close> rejected: \<^verbatim>\<open>catch\<close> up to its \<^verbatim>\<open>break\<close>, then \<^verbatim>\<open>finally\<close>, which runs
      before the loop is left\<close>
  "iteration_failed t idea err log1 r =
     video_finally idea
       ((setError (t ''video.error.apiFail'' @ '' '' @ errorMessage_of err)
           (requests_made log1
              (call_generateVideo idea (setGeneratingState_video idea True r))))
        \<lparr>broke := True\<rparr>)"

fun video_loop :: "env \<Rightarrow> (string \<Rightarrow> string) \<Rightarrow> string list \<Rightarrow> video_run \<Rightarrow> video_run option" where
  "video_loop env t [] r = Some r"
| "video_loop env t (idea # rest) r =
     (case generateVideo env idea V_16_9 8 True None None (net r) of
        None \<Rightarrow> None
      | Some (Inr videoUrl, log1) \<Rightarrow> video_loop env t rest (iteration_succeeded idea videoUrl log1 r)
      | Some (Inl err, log1) \<Rightarrow> Some (iteration_failed t idea err log1 r))"

definition videos_begin :: "idea_state \<times> event list \<Rightarrow> video_run" where
  "videos_begin s =
     (case s of (st, log) \<Rightarrow>
        setBatchJob (Some \<lparr>job_type = videos, progress = 0, total = length (ideas st)\<rparr>)
          (setError ''''
             \<lparr>ui = st, net = log, timeline = [], currentProgress = 0, attempted = [],
              broke = False\<rparr>))"

definition handleGenerateAllVideos ::
  "env \<Rightarrow> (string \<Rightarrow> string) \<Rightarrow> idea_state \<times> event list \<Rightarrow> video_run option" where
  "handleGenerateAllVideos env t s =
     (case s of (st, log) \<Rightarrow>
        if \<not> isKeyReady st
        then Some (setError (t ''idea.error.apiKey'')
                     \<lparr>ui = st, net = log, timeline = [], currentProgress = 0, attempted = [],
                      broke = False\<rparr>)
        else (case video_loop env t (ideas st) (videos_begin s) of
                None \<Rightarrow> None
              | Some r \<Rightarrow> Some (setBatchJob None r)))"

text \<open>
  When a pipeline never settles, the loop never returns: \<open>video_waits\<close> is the run in which
  the handler then waits for ever, the call of this pipeline being its last action (the
  requests of a pipeline that never settles have no end, and are not in the timeline). It
  is \<open>None\<close> when the loop returns.
\<close>

fun video_waits :: "env \<Rightarrow> (string \<Rightarrow> string) \<Rightarrow> string list \<Rightarrow> video_run \<Rightarrow> video_run option" where
  "video_waits env t [] r = None"
| "video_waits env t (idea # rest) r =
     (case generateVideo env idea V_16_9 8 True None None (net r) of
        None \<Rightarrow> Some (call_generateVideo idea (setGeneratingState_video idea True r))
      | Some (Inr videoUrl, log1) \<Rightarrow> video_waits env t rest (iteration_succeeded idea videoUrl log1 r)
      | Some (Inl err, log1) \<Rightarrow> None)"


section \<open>The ImageGenerator component\<close>

datatype ui_aspect = UI_1_1 | UI_16_9 | UI_9_16

fun serviceAspectRatio :: "ui_aspect \<Rightarrow> image_aspect" where
  "serviceAspectRatio UI_1_1 = AR_1_1"
| "serviceAspectRatio UI_16_9 = AR_16_9"
| "serviceAspectRatio UI_9_16 = AR_9_16"

record ImageHistoryItem =
  imageUrl :: string
  prompt :: string
  aspectRatio :: ui_aspect

definition MAX_HISTORY_ITEMS :: nat where
  "MAX_HISTORY_ITEMS = 6"

record image_state = component_state +
  canShare :: bool
  prompt :: string
  aspectRatio :: ui_aspect
  loadingMessage :: string
  imageUrl :: "string option"
  history :: "ImageHistoryItem list"

definition ImageGenerator_handleSelectKey :: "js_error + unit \<Rightarrow> image_state \<Rightarrow> image_state" where
  "ImageGenerator_handleSelectKey opened st =
     (case opened of
        Inl err \<Rightarrow> st
      | Inr u \<Rightarrow> st\<lparr>isKeyReady := True, error := ''''\<rparr>)"

definition updatedHistory ::
  "string \<Rightarrow> ImageHistoryItem \<Rightarrow> ImageHistoryItem list \<Rightarrow> ImageHistoryItem list" where
  \<comment> \<open>\<^verbatim>\<open>[newHistoryItem, ...prevHistory.filter(item => item.imageUrl !== url)].slice(0, MAX_HISTORY_ITEMS)\<close>\<close>
  "updatedHistory url newHistoryItem prevHistory =
     take MAX_HISTORY_ITEMS
       (newHistoryItem # filter (\<lambda>item. ImageHistoryItem.imageUrl item \<noteq> url) prevHistory)"

text \<open>
  \<^verbatim>\<open>localStorage\<close> is a map from keys to strings; \<open>full\<close> tells whether \<^verbatim>\<open>setItem\<close> throws for
  a value (the quota), which the code catches and ignores. \<open>stringify\<close> is \<^verbatim>\<open>JSON.stringify\<close>.
\<close>

record image_page =
  widget :: image_state
  localStorage :: "string \<rightharpoonup> string"
  requests :: "event list"

definition generate ::
  "env \<Rightarrow> (string \<Rightarrow> string) \<Rightarrow> (ImageHistoryItem list \<Rightarrow> string) \<Rightarrow> (string \<Rightarrow> bool)
   \<Rightarrow> string \<Rightarrow> image_page \<Rightarrow> image_page" where
  "generate env t stringify full currentPrompt page =
     (let st = widget page
      in if currentPrompt = '''' then page\<lparr>widget := st\<lparr>error := t ''image.error.noPrompt''\<rparr>\<rparr>
         else (let st1 = st\<lparr>isLoading := True, error := '''', image_state.imageUrl := None\<rparr>
               in (case generateImageFromPrompt env currentPrompt
                         (serviceAspectRatio (image_state.aspectRatio st)) (requests page) of
                     (Inr url, log1) \<Rightarrow>
                       (let newHistoryItem = \<lparr>ImageHistoryItem.imageUrl = url,
                                               ImageHistoryItem.prompt = currentPrompt,
                                               ImageHistoryItem.aspectRatio =
                                                 image_state.aspectRatio st\<rparr>;
                            updated = updatedHistory url newHistoryItem (history st1);
                            stored = stringify updated
                        in \<lparr>widget = st1\<lparr>image_state.imageUrl := Some url, history := updated,
                                         isLoading := False\<rparr>,
                            localStorage = (if full stored then localStorage page
                                            else (localStorage page)(''imageGenHistory'' \<mapsto> stored)),
                            requests = log1\<rparr>)
                   | (Inl err, log1) \<Rightarrow>
                       (let errorMessage = errorMessage_of err
                        in \<lparr>widget =
                              (if str_includes errorMessage ''billed users''
                                  \<or> str_includes errorMessage ''Requested entity was not found''
                               then st1\<lparr>error := t ''image.error.billingRequired'',
                                        isKeyReady := False\<rparr>
                               else st1\<lparr>error := t ''image.error.apiFail'' @ '' '' @ errorMessage\<rparr>)
                              \<lparr>isLoading := False\<rparr>,
                            localStorage = localStorage page,
                            requests = log1\<rparr>))))"


section \<open>The VideoCreator component\<close>

record video_state = component_state +
  canShare :: bool
  prompt :: string
  aspectRatio :: video_aspect
  imageFile :: "(string \<times> string) option"
  imageUrl :: "string option"
  duration :: int
  allowPeople :: bool
  loadingMessage :: string
  allowHtmlError :: bool
  videoUrl :: "string option"

definition VideoCreator_handleSelectKey :: "js_error + unit \<Rightarrow> video_state \<Rightarrow> video_state" where
  "VideoCreator_handleSelectKey opened st =
     (case opened of
        Inl err \<Rightarrow> st
      | Inr u \<Rightarrow> st\<lparr>isKeyReady := True\<rparr>)"


section \<open>Runs of the polling loop\<close>

text \<open>
  What a service reports in one run: \<open>reports env apiKey log operation polled\<close> says that, the
  code holding \<open>operation\<close> after the requests of \<open>log\<close>, the service answers the successive
  status queries with the operations of \<open>polled\<close>, one after the other, that every operation
  before the last one of \<open>operation # polled\<close> is reported not done, and that the last one is
  reported done. So \<open>length polled\<close> is the number of times the service reports
  \<^verbatim>\<open>done = false\<close>.
\<close>

fun reports :: "env \<Rightarrow> string \<Rightarrow> event list \<Rightarrow> VideoOperation \<Rightarrow> VideoOperation list \<Rightarrow> bool" where
  "reports env apiKey log operation [] = op_done operation"
| "reports env apiKey log operation (next # rest) =
     (\<not> op_done operation
      \<and> getVideosOperation env (log @ [Sleep 10000, GetVideosOperation apiKey operation]) = Inr next
      \<and> reports env apiKey (log @ [Sleep 10000, GetVideosOperation apiKey operation]) next rest)"


definition poll_requests :: "string \<Rightarrow> VideoOperation list \<Rightarrow> event list" where
  \<comment> \<open>one delay of 10000 ms, then one status query, for each operation of the list\<close>
  "poll_requests apiKey ops =
     concat (map (\<lambda>operation. [Sleep 10000, GetVideosOperation apiKey operation]) ops)"

fun is_fetch :: "event \<Rightarrow> bool" where
  "is_fetch (Fetch url) = True"
| "is_fetch other = False"

fun is_poll :: "event \<Rightarrow> bool" where
  "is_poll (GetVideosOperation apiKey operation) = True"
| "is_poll other = False"


section \<open>Runs of the video batch\<close>

text \<open>
  \<open>all_succeed env prompts log\<close> runs the pipeline \<^verbatim>\<open>generateVideo(idea, '16:9', 8, true)\<close> for
  the prompts, one after the other, from the log \<open>log\<close>: it is \<open>Some (urls, log')\<close> when every
  one of them settles with a video, and \<open>None\<close> otherwise.
\<close>

fun all_succeed :: "env \<Rightarrow> string list \<Rightarrow> event list \<Rightarrow> (string list \<times> event list) option" where
  "all_succeed env [] log = Some ([], log)"
| "all_succeed env (idea # rest) log =
     (case generateVideo env idea V_16_9 8 True None None log of
        Some (Inr url, log1) \<Rightarrow>
          (case all_succeed env rest log1 of
             Some (urls, log2) \<Rightarrow> Some (url # urls, log2)
           | None \<Rightarrow> None)
      | _ \<Rightarrow> None)"


text \<open>
  A pass of the loop is described by its prompt, the requests its pipeline made and the way
  the pipeline settled. \<open>passes_ran env log passes\<close> says that the pipelines of \<open>passes\<close>, run
  one after the other from the log \<open>log\<close>, made these requests and settled in these ways.
  \<open>passes_actions t n passes\<close> is what complete passes add to the timeline, the counter being
  \<open>n\<close> before the first of them: for each pass, in this order, the generating flag set, the
  call of the pipeline, its requests, the video stored or the error set, the progress set
  and the generating flag reset.
\<close>

type_synonym pass = "string \<times> event list \<times> (js_error + string)"

fun passes_ran :: "env \<Rightarrow> event list \<Rightarrow> pass list \<Rightarrow> bool" where
  "passes_ran env log [] = True"
| "passes_ran env log ((idea, asked, outcome) # rest) =
     (generateVideo env idea V_16_9 8 True None None log = Some (outcome, log @ asked)
      \<and> passes_ran env (log @ asked) rest)"

fun passes_actions :: "(string \<Rightarrow> string) \<Rightarrow> nat \<Rightarrow> pass list \<Rightarrow> action list" where
  "passes_actions t n [] = []"
| "passes_actions t n ((idea, asked, outcome) # rest) =
     [SetGeneratingState_video idea True, Call_generateVideo idea]
     @ map Asked asked
     @ [case outcome of
          Inr url \<Rightarrow> SetGeneratedContent_video idea url
        | Inl err \<Rightarrow> SetError (t ''video.error.apiFail'' @ '' '' @ errorMessage_of err),
        SetBatchJob_progress (n + 1),
        SetGeneratingState_video idea False]
     @ passes_actions t (n + 1) rest"

definition passes_requests :: "pass list \<Rightarrow> event list" where
  "passes_requests passes = concat (map (\<lambda>p. fst (snd p)) passes)"

definition succeeded :: "pass \<Rightarrow> bool" where
  "succeeded p = (\<not> isl (snd (snd p)))"


section \<open>Runs of the image batch\<close>

fun requested_images :: "event list \<Rightarrow> string list" where
  \<comment> \<open>the prompts of the image requests of a log, in the order of the requests\<close>
  "requested_images [] = []"
| "requested_images (GenerateImages apiKey engine wording n mime ratio # rest) =
     wording # requested_images rest"
| "requested_images (other # rest) = requested_images rest"

fun called_images :: "action list \<Rightarrow> string list" where
  \<comment> \<open>the prompts the image pipeline is called with in a timeline, in the order of the calls\<close>
  "called_images [] = []"
| "called_images (Call_generateImageFromPrompt idea # rest) = idea # called_images rest"
| "called_images (other # rest) = called_images rest"

fun is_call_or_request :: "action \<Rightarrow> bool" where
  "is_call_or_request (Call_generateImageFromPrompt idea) = True"
| "is_call_or_request (Asked request) = True"
| "is_call_or_request other = False"

definition settlement :: "(string \<times> (js_error + string)) list \<Rightarrow> nat \<Rightarrow> action list" where
  \<comment> \<open>what the settlement of promise number \<open>i\<close> adds to the timeline\<close>
  "settlement imagePromises i =
     (case imagePromises ! i of
        (idea, Inr url) \<Rightarrow>
          [Settles i, SetGeneratedContent_image idea url, SetBatchJob_increment,
           SetGeneratingState_image idea False]
      | (idea, Inl err) \<Rightarrow>
          [Settles i, SetBatchJob_increment, SetGeneratingState_image idea False])"


section \<open>Concrete inputs\<close>

definition stale_video_state :: video_state where
  \<comment> \<open>the VideoCreator after a rejected key: gated again, the error still shown\<close>
  "stale_video_state =
     \<lparr>isKeyReady = False, isCheckingKey = False, isLoading = False,
      error = ''invalid key'',
      canShare = False, prompt = ''a boat'', aspectRatio = V_16_9, imageFile = None,
      imageUrl = None, duration = 8, allowPeople = True, loadingMessage = '''',
      allowHtmlError = False, videoUrl = None\<rparr>"

text \<open>
  A service that reports \<^verbatim>\<open>done = false\<close> twice (for the submitted operation and at the first
  status query) and \<^verbatim>\<open>done = true\<close>, with a result locator, at the second query. The key of
  the environment changes as soon as the first request has been made.
\<close>

definition reported :: "nat \<Rightarrow> VideoOperation" where
  "reported n =
     (if n = 0 then \<lparr>op_name = ''as submitted'', op_done = False, op_uri = None\<rparr>
      else if n = 1 then \<lparr>op_name = ''first answer'', op_done = False, op_uri = None\<rparr>
      else \<lparr>op_name = ''second answer'', op_done = True,
            op_uri = Some ''https://video.test/1?alt=media''\<rparr>)"

definition mock_service :: env where
  "mock_service =
     \<lparr>API_KEY = (\<lambda>log. if log = [] then Some ''key-1'' else Some ''key-2''),
      generateContent = (\<lambda>log. Inl NonError),
      generateImages = (\<lambda>log. Inl NonError),
      generateVideos = (\<lambda>log. Inr (reported 0)),
      getVideosOperation = (\<lambda>log. Inr (reported (length (filter is_poll log)))),
      fetch = (\<lambda>log. Inr \<lparr>ok = True, statusText = ''OK'', body_text = Inr '''',
                           body_blob = Inr ''bytes''\<rparr>),
      JSON_parse = (\<lambda>s. Inl NonError),
      String_trim = (\<lambda>s. s),
      createObjectURL = (\<lambda>videoBlob. ''blob:'' @ videoBlob)\<rparr>"

text \<open>
  A service whose operation is done as soon as it is submitted, with the given result
  locator, and whose asset server answers with the given response.
\<close>

definition instant_service :: "string option \<Rightarrow> Response \<Rightarrow> env" where
  "instant_service link response =
     \<lparr>API_KEY = (\<lambda>log. Some ''key-1''),
      generateContent = (\<lambda>log. Inl NonError),
      generateImages = (\<lambda>log. Inl NonError),
      generateVideos = (\<lambda>log. Inr \<lparr>op_name = ''operation'', op_done = True, op_uri = link\<rparr>),
      getVideosOperation = (\<lambda>log. Inl NonError),
      fetch = (\<lambda>log. Inr response),
      JSON_parse = (\<lambda>s. Inl NonError),
      String_trim = (\<lambda>s. s),
      createObjectURL = (\<lambda>videoBlob. ''blob:'' @ videoBlob)\<rparr>"

definition forbidden :: Response where
  "forbidden = \<lparr>ok = False, statusText = ''Forbidden'', body_text = Inr ''quota'',
                 body_blob = Inr ''''\<rparr>"



text \<open>
  A service for the batches: it rejects the image request and the video job of one prompt
  and serves every other prompt at once.
\<close>

definition batch_service :: "string \<Rightarrow> env" where
  "batch_service refused =
     \<lparr>API_KEY = (\<lambda>log. Some ''key-1''),
      generateContent = (\<lambda>log. Inl NonError),
      generateImages =
        (\<lambda>log. case rev log of
                  GenerateImages apiKey engine wording n mime ratio # earlier \<Rightarrow>
                    if wording = refused then Inl (Error ''quota exceeded'')
                    else Inr \<lparr>generatedImages = Some [Some (Some (''image of '' @ wording))]\<rparr>
                | _ \<Rightarrow> Inl NonError),
      generateVideos =
        (\<lambda>log. case rev log of
                  GenerateVideos apiKey request # earlier \<Rightarrow>
                    if request_prompt request = refused then Inl (Error ''quota exceeded'')
                    else Inr \<lparr>op_name = ''operation'', op_done = True,
                              op_uri = Some ''https://video.test/1?alt=media''\<rparr>
                | _ \<Rightarrow> Inl NonError),
      getVideosOperation = (\<lambda>log. Inl NonError),
      fetch = (\<lambda>log. Inr \<lparr>ok = True, statusText = ''OK'', body_text = Inr '''',
                           body_blob = Inr ''bytes''\<rparr>),
      JSON_parse = (\<lambda>s. Inl NonError),
      String_trim = (\<lambda>s. s),
      createObjectURL = (\<lambda>videoBlob. ''blob:'' @ videoBlob)\<rparr>"

definition three_ideas :: idea_state where
  "three_ideas =
     \<lparr>isKeyReady = True, isCheckingKey = False, isLoading = False, error = '''',
      ideas = [''a'', ''b'', ''c''], generatedContent = Map.empty,
      generatingState = Map.empty, batchJob = None\<rparr>"

definition one_idea_with_image :: idea_state where
  \<comment> \<open>the component after a batch that produced an image for its only prompt\<close>
  "one_idea_with_image =
     \<lparr>isKeyReady = True, isCheckingKey = False, isLoading = False, error = '''',
      ideas = [''a''],
      generatedContent = [''a'' \<mapsto> \<lparr>image = Some ''image of a'', video = None\<rparr>],
      generatingState = [''a'' \<mapsto> \<lparr>image_flag = Some False, video_flag = None\<rparr>],
      batchJob = None\<rparr>"

definition unreadable :: Response where
  \<comment> \<open>a refusal whose body cannot be read: the connection is lost after the headers\<close>
  "unreadable = \<lparr>ok = False, statusText = ''Forbidden'',
                  body_text = Inl (TypeError ''Failed to fetch''), body_blob = Inr ''''\<rparr>"


text \<open>
  A service whose video job for the prompt \<open>pending\<close> is never reported done; the jobs of
  all other prompts are done at once.
\<close>

definition pending_service :: "string \<Rightarrow> env" where
  "pending_service pending =
     \<lparr>API_KEY = (\<lambda>log. Some ''key-1''),
      generateContent = (\<lambda>log. Inl NonError),
      generateImages = (\<lambda>log. Inl NonError),
      generateVideos =
        (\<lambda>log. case rev log of
                  GenerateVideos apiKey request # earlier \<Rightarrow>
                    Inr \<lparr>op_name = ''operation'', op_done = (request_prompt request \<noteq> pending),
                         op_uri = Some ''https://video.test/1?alt=media''\<rparr>
                | _ \<Rightarrow> Inl NonError),
      getVideosOperation =
        (\<lambda>log. Inr \<lparr>op_name = ''operation'', op_done = False, op_uri = None\<rparr>),
      fetch = (\<lambda>log. Inr \<lparr>ok = True, statusText = ''OK'', body_text = Inr '''',
                           body_blob = Inr ''bytes''\<rparr>),
      JSON_parse = (\<lambda>s. Inl NonError),
      String_trim = (\<lambda>s. s),
      createObjectURL = (\<lambda>videoBlob. ''blob:'' @ videoBlob)\<rparr>"

text \<open>
  A service that draws a new picture at every request: the picture is named after the
  number of requests made so far. \<open>twice_the_same_idea\<close> is a component whose list of ideas
  holds the same text twice.
\<close>

definition drawing_service :: env where
  "drawing_service =
     \<lparr>API_KEY = (\<lambda>log. Some ''key-1''),
      generateContent = (\<lambda>log. Inl NonError),
      generateImages =
        (\<lambda>log. Inr \<lparr>generatedImages = Some [Some (Some (replicate (length log) CHR ''I''))]\<rparr>),
      generateVideos = (\<lambda>log. Inl NonError),
      getVideosOperation = (\<lambda>log. Inl NonError),
      fetch = (\<lambda>log. Inl NonError),
      JSON_parse = (\<lambda>s. Inl NonError),
      String_trim = (\<lambda>s. s),
      createObjectURL = (\<lambda>videoBlob. ''blob:'' @ videoBlob)\<rparr>"

definition twice_the_same_idea :: idea_state where
  "twice_the_same_idea =
     \<lparr>isKeyReady = True, isCheckingKey = False, isLoading = False, error = '''',
      ideas = [''a'', ''a''], generatedContent = Map.empty,
      generatingState = Map.empty, batchJob = None\<rparr>"


section \<open>The image history\<close>

lemma updatedHistory_length: "length (updatedHistory url item prev) \<le> MAX_HISTORY_ITEMS"
  by (simp add: updatedHistory_def)

lemma generate_history_length:
  "length (history (widget page)) \<le> MAX_HISTORY_ITEMS
   \<Longrightarrow> length (history (widget (generate env t stringify full p page))) \<le> MAX_HISTORY_ITEMS"
  by (auto simp: generate_def Let_def updatedHistory_length split: prod.splits sum.splits)

lemma generate_seq_length:
  "length (history (widget page)) \<le> MAX_HISTORY_ITEMS
   \<Longrightarrow> length (history (widget (foldl (\<lambda>pg p. generate env t stringify full p pg) page ps)))
       \<le> MAX_HISTORY_ITEMS"
  by (induction ps arbitrary: page) (simp_all add: generate_history_length)

text \<open>A successful \<open>generate\<close> is one insertion into the history.\<close>

lemma generate_success_history:
  "p \<noteq> '''' \<Longrightarrow>
   generateImageFromPrompt env p (serviceAspectRatio (image_state.aspectRatio (widget page)))
     (requests page) = (Inr url, log1)
   \<Longrightarrow> history (widget (generate env t stringify full p page))
       = updatedHistory url
           \<lparr>ImageHistoryItem.imageUrl = url, ImageHistoryItem.prompt = p,
            ImageHistoryItem.aspectRatio = image_state.aspectRatio (widget page)\<rparr>
           (history (widget page))"
  by (simp add: generate_def Let_def)

text \<open>
  Claim C7. An insertion into the image history, whatever the list was before, leaves at
  most 6 entries: the new entry first, then the first 5 of the old entries with another
  locator, so the oldest is the one evicted. After the insertion of an entry, its locator
  is the locator of exactly one entry. Any sequence of calls of \<open>generate\<close>, started with an
  empty history, keeps the history within 6 entries.
\<close>

theorem history_bounded_and_deduplicated:
  "length (updatedHistory url item prev) \<le> 6
   \<and> updatedHistory url item prev
       = item # take 5 (filter (\<lambda>x. ImageHistoryItem.imageUrl x \<noteq> url) prev)
   \<and> length (filter (\<lambda>x. ImageHistoryItem.imageUrl x = url)
         (updatedHistory url \<lparr>ImageHistoryItem.imageUrl = url, ImageHistoryItem.prompt = p,
            ImageHistoryItem.aspectRatio = a\<rparr> prev)) = 1
   \<and> length (history (widget (foldl (\<lambda>pg q. generate env t stringify full q pg)
         (page\<lparr>widget := (widget page)\<lparr>history := []\<rparr>\<rparr>) qs))) \<le> 6"
proof -
  have fresh: "filter (\<lambda>x. ImageHistoryItem.imageUrl x = url)
                 (take n (filter (\<lambda>x. ImageHistoryItem.imageUrl x \<noteq> url) prev)) = []" for n
    by (auto simp: filter_empty_conv dest: in_set_takeD)
  have "length (history (widget (foldl (\<lambda>pg q. generate env t stringify full q pg)
         (page\<lparr>widget := (widget page)\<lparr>history := []\<rparr>\<rparr>) qs))) \<le> MAX_HISTORY_ITEMS"
    by (rule generate_seq_length) simp
  then show ?thesis
    using fresh [of 5] by (simp add: updatedHistory_def MAX_HISTORY_ITEMS_def numeral_eq_Suc)
qed


section \<open>Selecting a key\<close>

text \<open>
  In the IdeaGenerator and in the ImageGenerator, once the key dialogue has closed, the
  component is ready and shows no error, whatever its state was.
\<close>

lemma IdeaGenerator_handleSelectKey_clears:
  "isKeyReady (IdeaGenerator_handleSelectKey (Inr ()) st)
   \<and> error (IdeaGenerator_handleSelectKey (Inr ()) st) = ''''"
  by (simp add: IdeaGenerator_handleSelectKey_def)

lemma ImageGenerator_handleSelectKey_clears:
  "isKeyReady (ImageGenerator_handleSelectKey (Inr ()) st)
   \<and> error (ImageGenerator_handleSelectKey (Inr ()) st) = ''''"
  by (simp add: ImageGenerator_handleSelectKey_def)

lemma VideoCreator_handleSelectKey_error:
  "error (VideoCreator_handleSelectKey opened st) = error st"
  by (simp add: VideoCreator_handleSelectKey_def split: sum.splits)

text \<open>
  Claim C8. Selecting a key makes the component ready and clears the error it shows. The
  VideoCreator does the first and not the second: after a rejected key it is ready again
  and still shows the error of the rejected key.
\<close>

theorem VideoCreator_handleSelectKey_keeps_error:
  "isKeyReady (VideoCreator_handleSelectKey (Inr ()) stale_video_state)
   \<and> error (VideoCreator_handleSelectKey (Inr ()) stale_video_state) = ''invalid key''"
  by (simp add: VideoCreator_handleSelectKey_def stale_video_state_def)


section \<open>Generating ideas\<close>

text \<open>
  Claim C10. \<open>handleGenerate\<close> calls the service in a state whose ideas, generated content,
  generating flags and batch job are already cleared. When the call fails nothing of it is
  restored: the final state is the state before the action with these four cleared, the
  error message set and the loading flag off.
\<close>

theorem handleGenerate_failure_keeps_cleared:
  "ideas (handleGenerate_begin st) = []
   \<and> generatedContent (handleGenerate_begin st) = Map.empty
   \<and> generatingState (handleGenerate_begin st) = Map.empty
   \<and> batchJob (handleGenerate_begin st) = None
   \<and> IdeaGenerator_handleGenerate t (Inl err) st
       = st\<lparr>isLoading := False,
            error := t ''idea.error.apiFail'' @ '' '' @ errorMessage_of err,
            ideas := [], generatedContent := Map.empty, generatingState := Map.empty,
            batchJob := None\<rparr>"
  by (simp add: handleGenerate_begin_def IdeaGenerator_handleGenerate_def
        handleGenerate_settled_def)


section \<open>The video job: submission, polling, download\<close>

lemma poll_until_done_reports:
  "reports env apiKey log operation polled
   \<Longrightarrow> poll_until_done env apiKey operation log
       = Some (Inr (last (operation # polled)),
               log @ poll_requests apiKey (butlast (operation # polled)))"
proof (induction polled arbitrary: operation log)
  case Nil
  then show ?case by (simp add: poll_until_done.simps poll_requests_def)
next
  case (Cons nxt rest)
  from Cons.prems have nd: "\<not> op_done operation"
    and ans: "getVideosOperation env (log @ [Sleep 10000, GetVideosOperation apiKey operation]) = Inr nxt"
    and rep: "reports env apiKey (log @ [Sleep 10000, GetVideosOperation apiKey operation]) nxt rest"
    by simp_all
  have "poll_until_done env apiKey operation log
        = poll_until_done env apiKey nxt (log @ [Sleep 10000, GetVideosOperation apiKey operation])"
    using nd ans by (subst poll_until_done.simps) (simp add: Let_def)
  also have "\<dots> = Some (Inr (last (nxt # rest)),
      (log @ [Sleep 10000, GetVideosOperation apiKey operation]) @ poll_requests apiKey (butlast (nxt # rest)))"
    by (rule Cons.IH [OF rep])
  finally show ?case by (simp add: poll_requests_def)
qed

lemma generateVideo_with_key:
  assumes "API_KEY env log = Some apiKey" and "apiKey \<noteq> ''''"
  shows "generateVideo env wording ratio seconds people base64Image mimeType log
         = (case video_body env apiKey
                   (requestPayload wording ratio seconds people base64Image mimeType) log of
              None \<Rightarrow> None
            | Some (Inl err, log') \<Rightarrow> Some (Inl (video_catch err), log')
            | Some (Inr url, log') \<Rightarrow> Some (Inr url, log'))"
  using assms by (simp add: generateVideo_def truthy_def GoogleGenAI_new_def)

lemma video_body_reports:
  assumes "generateVideos env (log @ [GenerateVideos apiKey payload]) = Inr operation"
    and "reports env apiKey (log @ [GenerateVideos apiKey payload]) operation polled"
  shows "video_body env apiKey payload log
         = Some (download env apiKey (last (operation # polled))
                  (log @ [GenerateVideos apiKey payload]
                     @ poll_requests apiKey (butlast (operation # polled))))"
  using assms(1) poll_until_done_reports [OF assms(2)]
  by (simp add: video_body_def Let_def)

lemma download_log:
  "snd (download env apiKey operation log)
   = log @ (if truthy (op_uri operation)
            then [Fetch (the (op_uri operation) @ ''&key='' @ apiKey)] else [])"
  by (simp add: download_def Let_def split: sum.splits)

lemma poll_requests_length: "length (poll_requests apiKey ops) = 2 * length ops"
  by (induction ops) (simp_all add: poll_requests_def)

lemma poll_requests_no_fetch: "filter is_fetch (poll_requests apiKey ops) = []"
  by (induction ops) (simp_all add: poll_requests_def)


lemma poll_until_done_prefix:
  assumes run: "poll_until_done env apiKey operation log = Some res"
  shows "prefix log (snd res)"
proof (rule poll_until_done.raw_induct
         [where P = "\<lambda>e k opn lg rs. prefix lg (snd rs)", OF _ run])
  fix f :: "env \<Rightarrow> string \<Rightarrow> VideoOperation \<Rightarrow> event list \<Rightarrow> ((js_error + VideoOperation) \<times> event list) option"
    and e k opn lg rs
  assume IH: "\<And>e' k' opn' lg' y. f e' k' opn' lg' = Some y \<Longrightarrow> prefix lg' (snd y)"
  assume step: "(if op_done opn then Some (Inr opn, lg)
      else let log1 = lg @ [Sleep 10000];
               log2 = log1 @ [GetVideosOperation k opn]
           in case getVideosOperation e log2 of
              Inl err \<Rightarrow> Some (Inl err, log2)
              | Inr operation' \<Rightarrow> f e k operation' log2) = Some rs"
  show "prefix lg (snd rs)"
  proof (cases "op_done opn")
    case True
    with step show ?thesis by auto
  next
    case False
    show ?thesis
    proof (cases "getVideosOperation e (lg @ [Sleep 10000, GetVideosOperation k opn])")
      case (Inl err)
      with False step show ?thesis by (auto simp: Let_def)
    next
      case (Inr nxt)
      with False step have "f e k nxt (lg @ [Sleep 10000, GetVideosOperation k opn]) = Some rs"
        by (simp add: Let_def)
      then have "prefix (lg @ [Sleep 10000, GetVideosOperation k opn]) (snd rs)"
        by (rule IH)
      then show ?thesis by (rule append_prefixD)
    qed
  qed
qed

lemma video_body_prefix:
  assumes "video_body env apiKey payload log = Some (r, log')"
  shows "prefix (log @ [GenerateVideos apiKey payload]) log'"
proof (cases "generateVideos env (log @ [GenerateVideos apiKey payload])")
  case (Inl err)
  with assms show ?thesis by (simp add: video_body_def Let_def)
next
  case (Inr operation)
  show ?thesis
  proof (cases "poll_until_done env apiKey operation (log @ [GenerateVideos apiKey payload])")
    case None
    with Inr assms show ?thesis by (simp add: video_body_def Let_def)
  next
    case (Some res)
    obtain x log2 where res: "res = (x, log2)" by (cases res)
    have p: "prefix (log @ [GenerateVideos apiKey payload]) log2"
      using poll_until_done_prefix [OF Some] res by simp
    show ?thesis
    proof (cases x)
      case (Inl err)
      with Inr Some res assms p show ?thesis by (simp add: video_body_def Let_def)
    next
      case (Inr done_op)
      with \<open>generateVideos env (log @ [GenerateVideos apiKey payload]) = Inr operation\<close> Some res assms
      have "download env apiKey done_op log2 = (r, log')"
        by (simp add: video_body_def Let_def)
      then have "log' = log2 @ (if truthy (op_uri done_op)
            then [Fetch (the (op_uri done_op) @ ''&key='' @ apiKey)] else [])"
        using download_log [of env apiKey done_op log2] by simp
      with p show ?thesis by (auto intro: prefix_order.trans)
    qed
  qed
qed

text \<open>
  Claim C1. In every run of \<open>generateVideo\<close> with a key, in which the service accepts the job
  and then reports \<^verbatim>\<open>done = false\<close> exactly \<open>N = length polled\<close> times before it reports
  \<^verbatim>\<open>done = true\<close>, the requests made are: the submission; then, \<open>N\<close> times, a delay of 10000 ms
  followed by one status query, the query carrying the operation value returned last (the
  submitted one first, then the answer of the query before); then the download of the
  asset, if the final operation has a locator. The submission, every query and the download
  carry the key read when the operation started, whatever the environment's key is later.
\<close>

theorem poll_loop_fixed_delay_and_credential:
  assumes "API_KEY env log = Some apiKey" and "apiKey \<noteq> ''''"
    and "generateVideos env
           (log @ [GenerateVideos apiKey
                     (requestPayload wording ratio seconds people base64Image mimeType)])
         = Inr operation"
    and "reports env apiKey
           (log @ [GenerateVideos apiKey
                     (requestPayload wording ratio seconds people base64Image mimeType)])
           operation polled"
  shows "\<exists>result.
           generateVideo env wording ratio seconds people base64Image mimeType log
           = Some (result,
                   log @ [GenerateVideos apiKey
                            (requestPayload wording ratio seconds people base64Image mimeType)]
                       @ concat (map (\<lambda>held. [Sleep 10000, GetVideosOperation apiKey held])
                                   (butlast (operation # polled)))
                       @ (if truthy (op_uri (last (operation # polled)))
                          then [Fetch (the (op_uri (last (operation # polled))) @ ''&key='' @ apiKey)]
                          else []))
         \<and> length (butlast (operation # polled)) = length polled"
proof -
  let ?payload = "requestPayload wording ratio seconds people base64Image mimeType"
  let ?logN = "log @ [GenerateVideos apiKey ?payload] @ poll_requests apiKey (butlast (operation # polled))"
  let ?last = "last (operation # polled)"
  obtain r l where d: "download env apiKey ?last ?logN = (r, l)"
    by (cases "download env apiKey ?last ?logN")
  have l: "l = ?logN @ (if truthy (op_uri ?last) then [Fetch (the (op_uri ?last) @ ''&key='' @ apiKey)] else [])"
    using download_log [of env apiKey ?last ?logN] d by simp
  have "generateVideo env wording ratio seconds people base64Image mimeType log
        = Some (case r of Inl err \<Rightarrow> Inl (video_catch err) | Inr url \<Rightarrow> Inr url, l)"
    using d by (simp add: generateVideo_with_key [OF assms(1,2)] video_body_reports [OF assms(3,4)]
                  split: sum.splits)
  then show ?thesis using l by (simp add: poll_requests_def)
qed

theorem poll_loop_fixed_delay_and_credential_witness:
  "\<exists>result.
     generateVideo mock_service ''a boat'' V_16_9 8 True None None []
     = Some (result,
             [GenerateVideos ''key-1'' (requestPayload ''a boat'' V_16_9 8 True None None),
              Sleep 10000,
              GetVideosOperation ''key-1''
                \<lparr>op_name = ''as submitted'', op_done = False, op_uri = None\<rparr>,
              Sleep 10000,
              GetVideosOperation ''key-1''
                \<lparr>op_name = ''first answer'', op_done = False, op_uri = None\<rparr>,
              Fetch ''https://video.test/1?alt=media&key=key-1''])"
proof -
  have key: "API_KEY mock_service [] = Some ''key-1''" "''key-1'' \<noteq> ''''"
    by (simp_all add: mock_service_def)
  have submit: "generateVideos mock_service
      ([] @ [GenerateVideos ''key-1'' (requestPayload ''a boat'' V_16_9 8 True None None)])
      = Inr (reported 0)"
    by (simp add: mock_service_def)
  have rep: "reports mock_service ''key-1''
      ([] @ [GenerateVideos ''key-1'' (requestPayload ''a boat'' V_16_9 8 True None None)])
      (reported 0) [reported 1, reported 2]"
    by (simp add: mock_service_def reported_def)
  show ?thesis
    using poll_loop_fixed_delay_and_credential [OF key submit rep] by (simp add: reported_def truthy_def)
qed

text \<open>
  Claim C4, as stated, fails in its second half: when the asset server answers with a status
  that is not a success and the body of the answer cannot be read, the run fails with the
  error of the reading, which carries neither the status text nor the body.
\<close>

theorem download_failure_with_unreadable_body:
  "\<not> ok unreadable
   \<and> generateVideo (instant_service (Some ''https://video.test/1?alt=media'') unreadable)
        ''a boat'' V_16_9 8 True None None []
     = Some (Inl (TypeError ''Failed to fetch''),
             [GenerateVideos ''key-1'' (requestPayload ''a boat'' V_16_9 8 True None None),
              Fetch ''https://video.test/1?alt=media&key=key-1''])"
  by (simp add: generateVideo_def video_body_def download_def Let_def truthy_def
        instant_service_def poll_until_done.simps video_catch_def GoogleGenAI_new_def
        unreadable_def)

text \<open>
  Claim C4, amended. In every run of \<open>generateVideo\<close> in which the service reports the
  operation done: if the final operation has no result locator, the run fails with the
  error of the missing download link and no download is requested; if it has one and the
  asset server answers with a status that is not a success, the run fails, with an error
  whose message carries the status text and the body when the body can be read, and
  otherwise with what the reading of the body threw (itself when it is an \<^verbatim>\<open>Error\<close>, the error
  of the unknown failure when it is not).
\<close>

theorem completion_failures:
  assumes "API_KEY env log = Some apiKey" and "apiKey \<noteq> ''''"
    and "generateVideos env
           (log @ [GenerateVideos apiKey
                     (requestPayload wording ratio seconds people base64Image mimeType)])
         = Inr operation"
    and "reports env apiKey
           (log @ [GenerateVideos apiKey
                     (requestPayload wording ratio seconds people base64Image mimeType)])
           operation polled"
    and "asked = [GenerateVideos apiKey
                    (requestPayload wording ratio seconds people base64Image mimeType)]
                 @ poll_requests apiKey (butlast (operation # polled))"
    and "link = op_uri (last (operation # polled))"
  shows "(\<not> truthy link \<longrightarrow>
            generateVideo env wording ratio seconds people base64Image mimeType log
            = Some (Inl (Error ''Video generation succeeded, but no download link was provided.''),
                    log @ asked)
            \<and> filter is_fetch asked = [])
       \<and> (truthy link
            \<and> fetch env (log @ asked @ [Fetch (the link @ ''&key='' @ apiKey)]) = Inr response
            \<and> \<not> ok response \<and> body_text response = Inr errorBody \<longrightarrow>
            generateVideo env wording ratio seconds people base64Image mimeType log
            = Some (Inl (Error (''Failed to download video: '' @ statusText response
                                @ ''. Details: '' @ errorBody)),
                    log @ asked @ [Fetch (the link @ ''&key='' @ apiKey)]))
       \<and> (truthy link
            \<and> fetch env (log @ asked @ [Fetch (the link @ ''&key='' @ apiKey)]) = Inr response
            \<and> \<not> ok response \<and> body_text response = Inl thrown \<longrightarrow>
            generateVideo env wording ratio seconds people base64Image mimeType log
            = Some (Inl (if instanceof_Error thrown then thrown
                         else Error ''An unknown error occurred during video generation.''),
                    log @ asked @ [Fetch (the link @ ''&key='' @ apiKey)]))"
proof -
  have run: "generateVideo env wording ratio seconds people base64Image mimeType log
        = (case download env apiKey (last (operation # polled)) (log @ asked) of
             (Inl err, log') \<Rightarrow> Some (Inl (video_catch err), log')
           | (Inr url, log') \<Rightarrow> Some (Inr url, log'))"
    by (simp add: generateVideo_with_key [OF assms(1,2)] video_body_reports [OF assms(3,4)] assms(5)
          split: prod.splits sum.splits)
  show ?thesis
    unfolding run using assms(6)
    by (auto simp: download_def Let_def video_catch_def assms(5) poll_requests_no_fetch)
qed

theorem completion_failures_witness:
  "generateVideo (instant_service None forbidden) ''a boat'' V_16_9 8 True None None []
   = Some (Inl (Error ''Video generation succeeded, but no download link was provided.''),
           [GenerateVideos ''key-1'' (requestPayload ''a boat'' V_16_9 8 True None None)])
   \<and> generateVideo (instant_service (Some ''https://video.test/1?alt=media'') forbidden)
        ''a boat'' V_16_9 8 True None None []
     = Some (Inl (Error ''Failed to download video: Forbidden. Details: quota''),
             [GenerateVideos ''key-1'' (requestPayload ''a boat'' V_16_9 8 True None None),
              Fetch ''https://video.test/1?alt=media&key=key-1''])
   \<and> generateVideo (instant_service (Some ''https://video.test/1?alt=media'') unreadable)
        ''a boat'' V_16_9 8 True None None []
     = Some (Inl (TypeError ''Failed to fetch''),
             [GenerateVideos ''key-1'' (requestPayload ''a boat'' V_16_9 8 True None None),
              Fetch ''https://video.test/1?alt=media&key=key-1''])"
proof -
  let ?payload = "requestPayload ''a boat'' V_16_9 8 True None None"
  let ?link = "''https://video.test/1?alt=media''"
  let ?gone = "instant_service None forbidden"
  let ?denied = "instant_service (Some ?link) forbidden"
  let ?cut = "instant_service (Some ?link) unreadable"
  have a: "generateVideo ?gone ''a boat'' V_16_9 8 True None None []
     = Some (Inl (Error ''Video generation succeeded, but no download link was provided.''),
           [GenerateVideos ''key-1'' ?payload])"
    using completion_failures [of ?gone "[]" "''key-1''" "''a boat''" V_16_9 8 True None None
               "\<lparr>op_name = ''operation'', op_done = True, op_uri = None\<rparr>" "[]"
               "[GenerateVideos ''key-1'' ?payload]" None forbidden "''quota''"]
    by (simp add: instant_service_def poll_requests_def truthy_def)
  have b: "generateVideo ?denied ''a boat'' V_16_9 8 True None None []
     = Some (Inl (Error ''Failed to download video: Forbidden. Details: quota''),
             [GenerateVideos ''key-1'' ?payload, Fetch ''https://video.test/1?alt=media&key=key-1''])"
    using completion_failures [of ?denied "[]" "''key-1''" "''a boat''" V_16_9 8 True None None
               "\<lparr>op_name = ''operation'', op_done = True, op_uri = Some ?link\<rparr>" "[]"
               "[GenerateVideos ''key-1'' ?payload]" "Some ?link" forbidden "''quota''"]
    by (simp add: instant_service_def poll_requests_def truthy_def forbidden_def)
  have c: "generateVideo ?cut ''a boat'' V_16_9 8 True None None []
     = Some (Inl (TypeError ''Failed to fetch''),
             [GenerateVideos ''key-1'' ?payload, Fetch ''https://video.test/1?alt=media&key=key-1''])"
    using completion_failures [of ?cut "[]" "''key-1''" "''a boat''" V_16_9 8 True None None
               "\<lparr>op_name = ''operation'', op_done = True, op_uri = Some ?link\<rparr>" "[]"
               "[GenerateVideos ''key-1'' ?payload]" "Some ?link" unreadable _
               "TypeError ''Failed to fetch''"]
    by (simp add: instant_service_def poll_requests_def truthy_def unreadable_def)
  from a b c show ?thesis by simp
qed

lemma video_body_never_returns:
  assumes "video_body env apiKey payload log = None"
  shows "\<exists>operation.
           generateVideos env (log @ [GenerateVideos apiKey payload]) = Inr operation
         \<and> poll_until_done env apiKey operation (log @ [GenerateVideos apiKey payload]) = None"
  using assms
  by (auto simp: video_body_def Let_def split: sum.splits option.splits prod.splits)

lemma instant_service_key: "API_KEY (instant_service link response) log = Some ''key-1''"
  by (simp add: instant_service_def)

text \<open>
  The run used for claim C9: the job is done at once and has no locator, so the only request
  is the submission.
\<close>

lemma instant_run:
  "generateVideo (instant_service None forbidden) ''a boat'' V_16_9 8 True b m []
   = Some (Inl (Error ''Video generation succeeded, but no download link was provided.''),
           [GenerateVideos ''key-1'' (requestPayload ''a boat'' V_16_9 8 True b m)])"
  by (simp add: generateVideo_def video_body_def download_def Let_def truthy_def
        instant_service_def poll_until_done.simps video_catch_def GoogleGenAI_new_def)

text \<open>
  Claim C9, as stated, fails: with image bytes and a MIME type both provided, the MIME type
  being the empty string (what the browser gives for a file of unknown type), the submitted
  request has no start image.
\<close>

theorem start_image_dropped_when_mimeType_empty:
  "Some ''QUJD'' \<noteq> (None :: string option) \<and> Some '''' \<noteq> (None :: string option)
   \<and> generateVideo (instant_service None forbidden) ''a boat'' V_16_9 8 True
        (Some ''QUJD'') (Some '''') []
     = Some (Inl (Error ''Video generation succeeded, but no download link was provided.''),
             [GenerateVideos ''key-1''
                \<lparr>model = ''veo-2.0-generate-001'', request_prompt = ''a boat'',
                 config = \<lparr>numberOfVideos = 1, config_aspectRatio = V_16_9, durationSeconds = 8,
                           personGeneration = ALLOW_ALL\<rparr>,
                 request_image = None\<rparr>])"
  by (simp add: instant_run) (simp add: requestPayload_def truthy_def)

text \<open>
  Claim C9, amended. In every run of \<open>generateVideo\<close> with a key, the request submitted
  includes a start image if and only if the image bytes and the MIME type are both provided
  and both non-empty; otherwise (one of them missing or empty) the job is submitted without
  a start image instead of failing. The submission is the first request of every run that
  returns; a run that does not return has had this submission accepted and polls for ever.
\<close>

theorem start_image_iff_both_nonempty:
  assumes "truthy (API_KEY env log)"
  shows "\<exists>sent.
           request_prompt sent = wording
         \<and> request_image sent
             = (if truthy base64Image \<and> truthy mimeType
                then Some (the base64Image, the mimeType) else None)
         \<and> (case generateVideo env wording ratio seconds people base64Image mimeType log of
               Some (result, log') \<Rightarrow>
                 prefix (log @ [GenerateVideos (the (API_KEY env log)) sent]) log'
             | None \<Rightarrow>
                 (\<exists>operation.
                    generateVideos env (log @ [GenerateVideos (the (API_KEY env log)) sent])
                      = Inr operation
                  \<and> poll_until_done env (the (API_KEY env log)) operation
                      (log @ [GenerateVideos (the (API_KEY env log)) sent]) = None))"
proof -
  define apiKey where "apiKey = the (API_KEY env log)"
  have k: "API_KEY env log = Some apiKey" "apiKey \<noteq> ''''"
    using assms by (auto simp: truthy_def apiKey_def split: option.splits)
  let ?sent = "requestPayload wording ratio seconds people base64Image mimeType"
  let ?run = "generateVideo env wording ratio seconds people base64Image mimeType log"
  have "case ?run of
          Some (result, log') \<Rightarrow> prefix (log @ [GenerateVideos apiKey ?sent]) log'
        | None \<Rightarrow>
            (\<exists>operation.
               generateVideos env (log @ [GenerateVideos apiKey ?sent]) = Inr operation
             \<and> poll_until_done env apiKey operation (log @ [GenerateVideos apiKey ?sent]) = None)"
  proof (cases "video_body env apiKey ?sent log")
    case None
    then have "?run = None"
      by (simp add: generateVideo_with_key [OF k])
    with video_body_never_returns [OF None] show ?thesis by simp
  next
    case (Some res)
    obtain r log' where res: "res = (r, log')" by (cases res)
    with Some have "prefix (log @ [GenerateVideos apiKey ?sent]) log'"
      by (simp add: video_body_prefix)
    moreover from Some res have "\<exists>r'. ?run = Some (r', log')"
      by (simp add: generateVideo_with_key [OF k] split: sum.splits)
    ultimately show ?thesis by auto
  qed
  then show ?thesis
    unfolding apiKey_def by (intro exI [of _ ?sent]) (simp add: requestPayload_def)
qed

theorem start_image_iff_both_nonempty_witness:
  "\<exists>sent. request_prompt sent = ''a boat''
        \<and> request_image sent = None
        \<and> prefix [GenerateVideos ''key-1'' sent]
            [GenerateVideos ''key-1'' (requestPayload ''a boat'' V_16_9 8 True (Some ''QUJD'') None)]"
proof -
  have key: "truthy (API_KEY (instant_service None forbidden) [])"
    by (simp add: instant_service_key truthy_def)
  show ?thesis
    using start_image_iff_both_nonempty [OF key, of "''a boat''" "Some ''QUJD''" None V_16_9 8 True]
    by (simp add: instant_run instant_service_key truthy_def)
qed


section \<open>The five operations of the Generation Client\<close>








section \<open>The sequential video batch\<close>

text \<open>
  Every setter is a change of the state and one more action of the timeline; the requests of
  a pipeline are added to the timeline when the pipeline has settled.
\<close>

lemmas setter_defs =
  setError_def setBatchJob_def setBatchJob_progress_def setBatchJob_increment_def
  setGeneratingState_all_def setGeneratingState_image_def setGeneratingState_video_def
  setGeneratedContent_image_def setGeneratedContent_video_def requests_made_def

text \<open>A pipeline only adds requests to the log.\<close>

lemma generateVideo_prefix:
  assumes "generateVideo env wording ratio seconds people base64Image mimeType log
           = Some (res, log')"
  shows "prefix log log'"
proof (cases "truthy (API_KEY env log)")
  case False
  with assms show ?thesis by (simp add: generateVideo_def)
next
  case True
  then obtain apiKey where k: "API_KEY env log = Some apiKey" "apiKey \<noteq> ''''"
    by (auto simp: truthy_def split: option.splits)
  from assms obtain r where "video_body env apiKey
      (requestPayload wording ratio seconds people base64Image mimeType) log = Some (r, log')"
    unfolding generateVideo_with_key [OF k]
    by (auto split: option.splits sum.splits prod.splits)
  then have "prefix (log @ [GenerateVideos apiKey
      (requestPayload wording ratio seconds people base64Image mimeType)]) log'"
    by (rule video_body_prefix)
  then show ?thesis by (rule append_prefixD)
qed

lemma generateVideo_appends:
  assumes "generateVideo env wording ratio seconds people base64Image mimeType log
           = Some (res, log')"
  shows "log' = log @ drop (length log) log'"
  using generateVideo_prefix [OF assms] by (auto simp: prefix_def)

text \<open>What a pass of the loop does to the run, when its pipeline has settled.\<close>

lemma iteration_succeeded_fields:
  "net (iteration_succeeded idea url log1 r) = log1"
  "currentProgress (iteration_succeeded idea url log1 r) = currentProgress r + 1"
  "attempted (iteration_succeeded idea url log1 r) = attempted r @ [idea]"
  "broke (iteration_succeeded idea url log1 r) = broke r"
  "error (ui (iteration_succeeded idea url log1 r)) = error (ui r)"
  "ideas (ui (iteration_succeeded idea url log1 r)) = ideas (ui r)"
  "batchJob (ui (iteration_succeeded idea url log1 r))
     = map_option (\<lambda>j. j\<lparr>progress := currentProgress r + 1\<rparr>) (batchJob (ui r))"
  "timeline (iteration_succeeded idea url log1 r)
     = timeline r @ [SetGeneratingState_video idea True, Call_generateVideo idea]
       @ map Asked (drop (length (net r)) log1)
       @ [SetGeneratedContent_video idea url, SetBatchJob_progress (currentProgress r + 1),
          SetGeneratingState_video idea False]"
  by (simp_all add: iteration_succeeded_def video_finally_def call_generateVideo_def setter_defs
        split: option.splits)

lemma iteration_failed_fields:
  "net (iteration_failed t idea err log1 r) = log1"
  "currentProgress (iteration_failed t idea err log1 r) = currentProgress r + 1"
  "attempted (iteration_failed t idea err log1 r) = attempted r @ [idea]"
  "broke (iteration_failed t idea err log1 r) = True"
  "error (ui (iteration_failed t idea err log1 r))
     = t ''video.error.apiFail'' @ '' '' @ errorMessage_of err"
  "ideas (ui (iteration_failed t idea err log1 r)) = ideas (ui r)"
  "batchJob (ui (iteration_failed t idea err log1 r))
     = map_option (\<lambda>j. j\<lparr>progress := currentProgress r + 1\<rparr>) (batchJob (ui r))"
  "timeline (iteration_failed t idea err log1 r)
     = timeline r @ [SetGeneratingState_video idea True, Call_generateVideo idea]
       @ map Asked (drop (length (net r)) log1)
       @ [SetError (t ''video.error.apiFail'' @ '' '' @ errorMessage_of err),
          SetBatchJob_progress (currentProgress r + 1),
          SetGeneratingState_video idea False]"
  by (simp_all add: iteration_failed_def video_finally_def call_generateVideo_def setter_defs
        split: option.splits)

lemma videos_begin_fields:
  "currentProgress (videos_begin (st, log)) = 0"
  "net (videos_begin (st, log)) = log"
  "attempted (videos_begin (st, log)) = []"
  "broke (videos_begin (st, log)) = False"
  "error (ui (videos_begin (st, log))) = []"
  "ideas (ui (videos_begin (st, log))) = ideas st"
  "batchJob (ui (videos_begin (st, log)))
     = Some \<lparr>job_type = videos, progress = 0, total = length (ideas st)\<rparr>"
  "timeline (videos_begin (st, log))
     = [SetError '''',
        SetBatchJob (Some \<lparr>job_type = videos, progress = 0, total = length (ideas st)\<rparr>)]"
  by (simp_all add: videos_begin_def setter_defs)

text \<open>
  While the pipelines succeed the loop goes on: after the prompts \<open>pre\<close>, all successful, the
  loop is at the rest of the list with the counter advanced by \<open>length pre\<close>.
\<close>

lemma video_loop_successes:
  "all_succeed env pre (net r) = Some (urls, log1)
   \<Longrightarrow> batchJob (ui r) = Some \<lparr>job_type = videos, progress = currentProgress r, total = m\<rparr>
   \<Longrightarrow> \<exists>r1. (\<forall>rest. video_loop env t (pre @ rest) r = video_loop env t rest r1)
          \<and> currentProgress r1 = currentProgress r + length pre
          \<and> net r1 = log1
          \<and> attempted r1 = attempted r @ pre
          \<and> error (ui r1) = error (ui r)
          \<and> batchJob (ui r1)
              = Some \<lparr>job_type = videos, progress = currentProgress r1, total = m\<rparr>"
proof (induction pre arbitrary: r urls)
  case Nil
  then show ?case by (intro exI [of _ r]) simp
next
  case (Cons idea pre)
  from Cons.prems(1) obtain url l1 us
    where gv: "generateVideo env idea V_16_9 8 True None None (net r) = Some (Inr url, l1)"
      and rest: "all_succeed env pre l1 = Some (us, log1)"
    by (auto split: option.splits sum.splits prod.splits)
  let ?r' = "iteration_succeeded idea url l1 r"
  have net': "net ?r' = l1" by (simp add: iteration_succeeded_fields)
  have shows': "batchJob (ui ?r')
      = Some \<lparr>job_type = videos, progress = currentProgress ?r', total = m\<rparr>"
    using Cons.prems(2) by (simp add: iteration_succeeded_fields)
  have rest': "all_succeed env pre (net ?r') = Some (us, log1)"
    using rest net' by simp
  from Cons.IH [OF rest' shows']
  obtain r1 where r1: "\<forall>rest. video_loop env t (pre @ rest) ?r' = video_loop env t rest r1"
      "currentProgress r1 = currentProgress ?r' + length pre" "net r1 = log1"
      "attempted r1 = attempted ?r' @ pre" "error (ui r1) = error (ui ?r')"
      "batchJob (ui r1) = Some \<lparr>job_type = videos, progress = currentProgress r1, total = m\<rparr>"
    by blast
  show ?case
    using r1 gv by (intro exI [of _ r1]) (simp add: iteration_succeeded_fields)
qed

text \<open>Runs of the pipeline with the services of the batches.\<close>

lemma batch_service_serves:
  "wording \<noteq> refused \<Longrightarrow>
   generateVideo (batch_service refused) wording V_16_9 8 True None None log
   = Some (Inr ''blob:bytes'',
           log @ [GenerateVideos ''key-1'' (requestPayload wording V_16_9 8 True None None),
                  Fetch ''https://video.test/1?alt=media&key=key-1''])"
  by (simp add: generateVideo_def video_body_def download_def Let_def truthy_def
        batch_service_def poll_until_done.simps requestPayload_def GoogleGenAI_new_def)

lemma batch_service_refuses:
  "generateVideo (batch_service refused) refused V_16_9 8 True None None log
   = Some (Inl (Error ''quota exceeded''),
           log @ [GenerateVideos ''key-1'' (requestPayload refused V_16_9 8 True None None)])"
  by (simp add: generateVideo_def video_body_def Let_def truthy_def
        batch_service_def requestPayload_def video_catch_def GoogleGenAI_new_def)

lemma pending_service_serves:
  "wording \<noteq> pending \<Longrightarrow>
   generateVideo (pending_service pending) wording V_16_9 8 True None None log
   = Some (Inr ''blob:bytes'',
           log @ [GenerateVideos ''key-1'' (requestPayload wording V_16_9 8 True None None),
                  Fetch ''https://video.test/1?alt=media&key=key-1''])"
  by (simp add: generateVideo_def video_body_def download_def Let_def truthy_def
        pending_service_def poll_until_done.simps requestPayload_def GoogleGenAI_new_def)

lemma pending_service_never_done:
  assumes run: "poll_until_done env apiKey operation log = Some res"
  shows "env = pending_service pending \<longrightarrow> op_done operation"
proof (rule poll_until_done.raw_induct
         [where P = "\<lambda>e k opn lg rs. e = pending_service pending \<longrightarrow> op_done opn", OF _ run])
  fix f :: "env \<Rightarrow> string \<Rightarrow> VideoOperation \<Rightarrow> event list \<Rightarrow> ((js_error + VideoOperation) \<times> event list) option"
    and e k opn lg rs
  assume IH: "\<And>e' k' opn' lg' y. f e' k' opn' lg' = Some y
              \<Longrightarrow> e' = pending_service pending \<longrightarrow> op_done opn'"
  assume step: "(if op_done opn then Some (Inr opn, lg)
      else let log1 = lg @ [Sleep 10000];
               log2 = log1 @ [GetVideosOperation k opn]
           in case getVideosOperation e log2 of
              Inl err \<Rightarrow> Some (Inl err, log2)
              | Inr operation' \<Rightarrow> f e k operation' log2) = Some rs"
  show "e = pending_service pending \<longrightarrow> op_done opn"
  proof (intro impI, rule ccontr)
    assume e: "e = pending_service pending" and nd: "\<not> op_done opn"
    let ?again = "\<lparr>op_name = ''operation'', op_done = False, op_uri = None\<rparr>"
    from step nd e
    have "f e k ?again (lg @ [Sleep 10000, GetVideosOperation k opn]) = Some rs"
      by (simp add: Let_def pending_service_def)
    from IH [OF this] e show False by simp
  qed
qed

lemma pending_service_waits:
  "generateVideo (pending_service pending) pending V_16_9 8 True None None log = None"
proof -
  let ?log1 = "log @ [GenerateVideos ''key-1'' (requestPayload pending V_16_9 8 True None None)]"
  let ?opn = "\<lparr>op_name = ''operation'', op_done = False,
               op_uri = Some ''https://video.test/1?alt=media''\<rparr>"
  have "poll_until_done (pending_service pending) ''key-1'' ?opn ?log1 = None"
  proof (cases "poll_until_done (pending_service pending) ''key-1'' ?opn ?log1")
    case (Some res)
    from pending_service_never_done [OF this, of pending] show ?thesis by simp
  qed simp
  then show ?thesis
    by (simp add: generateVideo_def video_body_def Let_def truthy_def
          pending_service_def requestPayload_def GoogleGenAI_new_def)
qed

text \<open>
  Claim C2. In a video batch over a list of prompts in which the pipelines of the first
  \<open>k - 1\<close> prompts (\<open>pre\<close>) settle with a video and the pipeline of the prompt at position
  \<open>k = length pre + 1\<close> fails, the handler returns; the error of the failure is recorded; the
  pipeline has been called for the first \<open>k\<close> prompts and for no prompt after them, and the
  log of requests is the log at the failure; the counter and the progress of the batch job
  are \<open>k\<close> when the loop is left; and the batch job is cleared at the end, by the call
  \<^verbatim>\<open>setBatchJob(null)\<close> that ends the timeline.
\<close>

theorem video_batch_stops_at_first_failure:
  assumes "isKeyReady st"
    and "ideas st = pre @ idea # post"
    and "all_succeed env pre log = Some (urls, log1)"
    and "generateVideo env idea V_16_9 8 True None None log1 = Some (Inl err, log2)"
  shows "\<exists>stopped.
           video_loop env t (ideas st) (videos_begin (st, log)) = Some stopped
         \<and> handleGenerateAllVideos env t (st, log)
             = Some (stopped\<lparr>ui := (ui stopped)\<lparr>batchJob := None\<rparr>,
                            timeline := timeline stopped @ [SetBatchJob None]\<rparr>)
         \<and> broke stopped
         \<and> error (ui stopped) = t ''video.error.apiFail'' @ '' '' @ errorMessage_of err
         \<and> attempted stopped = pre @ [idea]
         \<and> net stopped = log2
         \<and> currentProgress stopped = length pre + 1
         \<and> batchJob (ui stopped)
             = Some \<lparr>job_type = videos, progress = length pre + 1, total = length (ideas st)\<rparr>"
proof -
  let ?r = "videos_begin (st, log)"
  have "all_succeed env pre (net ?r) = Some (urls, log1)"
    using assms(3) by (simp add: videos_begin_fields)
  from video_loop_successes [OF this, of "length (ideas st)" t]
  have "\<exists>r1. (\<forall>rest. video_loop env t (pre @ rest) ?r = video_loop env t rest r1)
          \<and> currentProgress r1 = length pre \<and> net r1 = log1 \<and> attempted r1 = pre
          \<and> error (ui r1) = []
          \<and> batchJob (ui r1) = Some \<lparr>job_type = videos, progress = currentProgress r1,
                                       total = length (ideas st)\<rparr>"
    by (simp add: videos_begin_fields)
  then obtain r1 where r1: "\<forall>rest. video_loop env t (pre @ rest) ?r = video_loop env t rest r1"
      "currentProgress r1 = length pre" "net r1 = log1" "attempted r1 = pre"
      "batchJob (ui r1) = Some \<lparr>job_type = videos, progress = currentProgress r1,
                                 total = length (ideas st)\<rparr>"
    by blast
  let ?stopped = "iteration_failed t idea err log2 r1"
  have loop: "video_loop env t (ideas st) ?r = Some ?stopped"
    using r1(1,3) assms(2,4) by simp
  show ?thesis
    using loop r1 assms(1)
    by (intro exI [of _ ?stopped])
       (simp add: handleGenerateAllVideos_def iteration_failed_fields setBatchJob_def)
qed


theorem video_batch_stops_at_first_failure_witness:
  "\<exists>stopped.
     handleGenerateAllVideos (batch_service ''b'') (\<lambda>k. k) (three_ideas, [])
       = Some (stopped\<lparr>ui := (ui stopped)\<lparr>batchJob := None\<rparr>,
                      timeline := timeline stopped @ [SetBatchJob None]\<rparr>)
     \<and> error (ui stopped) = ''video.error.apiFail quota exceeded''
     \<and> attempted stopped = [''a'', ''b'']
     \<and> currentProgress stopped = 2
     \<and> batchJob (ui stopped) = Some \<lparr>job_type = videos, progress = 2, total = 3\<rparr>"
proof -
  have ready: "isKeyReady three_ideas" and split: "ideas three_ideas = [''a''] @ ''b'' # [''c'']"
    by (simp_all add: three_ideas_def)
  have first: "all_succeed (batch_service ''b'') [''a''] []
      = Some ([''blob:bytes''],
              [] @ [GenerateVideos ''key-1'' (requestPayload ''a'' V_16_9 8 True None None),
                    Fetch ''https://video.test/1?alt=media&key=key-1''])"
    by (simp add: batch_service_serves)
  show ?thesis
    using video_batch_stops_at_first_failure
      [OF ready split first batch_service_refuses, of "\<lambda>k. k"]
    by (auto simp: errorMessage_of_def three_ideas_def)
qed

text \<open>
  The timeline of a loop that returns is made of complete passes, one after the other, each
  run from the log the previous one left; the loop stops at the end of the list or after the
  first pass that failed.
\<close>

lemma video_loop_returns:
  "video_loop env t xs r = Some r'
   \<Longrightarrow> \<exists>passes. passes_ran env (net r) passes
         \<and> prefix (map fst passes) xs
         \<and> ((list_all succeeded passes \<and> map fst passes = xs \<and> broke r' = broke r)
            \<or> (\<exists>oks idea asked err. passes = oks @ [(idea, asked, Inl err)]
                  \<and> list_all succeeded oks \<and> broke r'))
         \<and> timeline r' = timeline r @ passes_actions t (currentProgress r) passes
         \<and> net r' = net r @ passes_requests passes
         \<and> currentProgress r' = currentProgress r + length passes
         \<and> video_waits env t xs r = None"
proof (induction xs arbitrary: r)
  case Nil
  then show ?case by (intro exI [of _ "[]"]) (simp add: passes_requests_def)
next
  case (Cons idea rest)
  from Cons.prems obtain outcome log1
    where gv: "generateVideo env idea V_16_9 8 True None None (net r) = Some (outcome, log1)"
    by (cases "generateVideo env idea V_16_9 8 True None None (net r)") auto
  define asked where "asked = drop (length (net r)) log1"
  have log1: "log1 = net r @ asked"
    unfolding asked_def using gv by (rule generateVideo_appends)
  show ?case
  proof (cases outcome)
    case (Inl err)
    with gv Cons.prems have r': "r' = iteration_failed t idea err log1 r" by simp
    show ?thesis
      using gv log1 Inl
      by (intro exI [of _ "[(idea, asked, Inl err)]"])
         (simp add: r' iteration_failed_fields passes_requests_def asked_def [symmetric])
  next
    case (Inr url)
    let ?r1 = "iteration_succeeded idea url log1 r"
    from gv Cons.prems Inr have run: "video_loop env t rest ?r1 = Some r'" by simp
    from Cons.IH [OF run] obtain passes where p:
      "passes_ran env log1 passes" "prefix (map fst passes) rest"
      "(list_all succeeded passes \<and> map fst passes = rest \<and> broke r' = broke r)
        \<or> (\<exists>oks idea asked err. passes = oks @ [(idea, asked, Inl err)]
              \<and> list_all succeeded oks \<and> broke r')"
      "timeline r' = timeline ?r1 @ passes_actions t (currentProgress r + 1) passes"
      "net r' = log1 @ passes_requests passes"
      "currentProgress r' = currentProgress r + 1 + length passes"
      "video_waits env t rest ?r1 = None"
      by (auto simp: iteration_succeeded_fields)
    let ?passes = "(idea, asked, Inr url) # passes"
    have a: "passes_ran env (net r) ?passes"
      using gv Inr log1 p(1) by simp
    have b: "prefix (map fst ?passes) (idea # rest)" using p(2) by simp
    have c: "(list_all succeeded ?passes \<and> map fst ?passes = idea # rest \<and> broke r' = broke r)
        \<or> (\<exists>oks idea' asked' err. ?passes = oks @ [(idea', asked', Inl err)]
              \<and> list_all succeeded oks \<and> broke r')"
      using p(3)
    proof
      assume "list_all succeeded passes \<and> map fst passes = rest \<and> broke r' = broke r"
      then show ?thesis by (simp add: succeeded_def)
    next
      assume "\<exists>oks idea asked err. passes = oks @ [(idea, asked, Inl err)]
              \<and> list_all succeeded oks \<and> broke r'"
      then obtain oks idea' asked' err where
        "passes = oks @ [(idea', asked', Inl err)]" "list_all succeeded oks" "broke r'"
        by blast
      then have "?passes = ((idea, asked, Inr url) # oks) @ [(idea', asked', Inl err)]
          \<and> list_all succeeded ((idea, asked, Inr url) # oks) \<and> broke r'"
        by (simp add: succeeded_def)
      then show ?thesis by blast
    qed
    have d: "timeline r' = timeline r @ passes_actions t (currentProgress r) ?passes"
      using p(4) by (simp add: iteration_succeeded_fields asked_def)
    have e: "net r' = net r @ passes_requests ?passes"
      using p(5) log1 by (simp add: passes_requests_def)
    have f: "currentProgress r' = currentProgress r + length ?passes"
      using p(6) by simp
    have g: "video_waits env t (idea # rest) r = None"
      using p(7) gv Inr by simp
    from a b c d e f g show ?thesis by (intro exI [of _ ?passes]) blast
  qed
qed

text \<open>
  A loop that does not return has made complete and successful passes, and is in the
  pipeline of the next prompt, which never settles.
\<close>

lemma video_loop_waits:
  "video_loop env t xs r = None
   \<Longrightarrow> \<exists>passes idea w. prefix (map fst passes @ [idea]) xs
         \<and> passes_ran env (net r) passes
         \<and> list_all succeeded passes
         \<and> generateVideo env idea V_16_9 8 True None None (net r @ passes_requests passes) = None
         \<and> video_waits env t xs r = Some w
         \<and> timeline w = timeline r @ passes_actions t (currentProgress r) passes
                         @ [SetGeneratingState_video idea True, Call_generateVideo idea]
         \<and> net w = net r @ passes_requests passes"
proof (induction xs arbitrary: r)
  case Nil
  then show ?case by simp
next
  case (Cons idea rest)
  show ?case
  proof (cases "generateVideo env idea V_16_9 8 True None None (net r)")
    case None
    then show ?thesis
      by (intro exI [of _ "[]"] exI [of _ idea]
            exI [of _ "call_generateVideo idea (setGeneratingState_video idea True r)"])
         (simp add: passes_requests_def call_generateVideo_def setGeneratingState_video_def)
  next
    case (Some res)
    then obtain outcome log1
      where gv: "generateVideo env idea V_16_9 8 True None None (net r) = Some (outcome, log1)"
      by (cases res) auto
    define asked where "asked = drop (length (net r)) log1"
    have log1: "log1 = net r @ asked"
      unfolding asked_def using gv by (rule generateVideo_appends)
    from gv Cons.prems obtain url where Inr: "outcome = Inr url"
      by (cases outcome) auto
    let ?r1 = "iteration_succeeded idea url log1 r"
    from gv Cons.prems Inr have run: "video_loop env t rest ?r1 = None" by simp
    from Cons.IH [OF run] obtain passes idea' w where p:
      "prefix (map fst passes @ [idea']) rest"
      "passes_ran env log1 passes" "list_all succeeded passes"
      "generateVideo env idea' V_16_9 8 True None None (log1 @ passes_requests passes) = None"
      "video_waits env t rest ?r1 = Some w"
      "timeline w = timeline ?r1 @ passes_actions t (currentProgress r + 1) passes
                    @ [SetGeneratingState_video idea' True, Call_generateVideo idea']"
      "net w = log1 @ passes_requests passes"
      by (auto simp: iteration_succeeded_fields)
    let ?passes = "(idea, asked, Inr url) # passes"
    have a: "prefix (map fst ?passes @ [idea']) (idea # rest)" using p(1) by simp
    have b: "passes_ran env (net r) ?passes" using gv Inr log1 p(2) by simp
    have c: "list_all succeeded ?passes" using p(3) by (simp add: succeeded_def)
    have d: "generateVideo env idea' V_16_9 8 True None None (net r @ passes_requests ?passes)
             = None"
      using p(4) log1 by (simp add: passes_requests_def)
    have e: "video_waits env t (idea # rest) r = Some w" using p(5) gv Inr by simp
    have f: "timeline w = timeline r @ passes_actions t (currentProgress r) ?passes
                    @ [SetGeneratingState_video idea' True, Call_generateVideo idea']"
      using p(6) by (simp add: iteration_succeeded_fields asked_def)
    have g: "net w = net r @ passes_requests ?passes"
      using p(7) log1 by (simp add: passes_requests_def)
    from a b c d e f g show ?thesis
      by (intro exI [of _ ?passes] exI [of _ idea'] exI [of _ w]) blast
  qed
qed


text \<open>
  Two runs over the prompts a, b, c: in the first the job of b is refused, in the second it
  is never done.
\<close>

lemma refused_run_timeline:
  "map_option timeline (handleGenerateAllVideos (batch_service ''b'') (\<lambda>k. k) (three_ideas, []))
   = Some [SetError '''', SetBatchJob (Some \<lparr>job_type = videos, progress = 0, total = 3\<rparr>),
       SetGeneratingState_video ''a'' True, Call_generateVideo ''a'',
       Asked (GenerateVideos ''key-1'' (requestPayload ''a'' V_16_9 8 True None None)),
       Asked (Fetch ''https://video.test/1?alt=media&key=key-1''),
       SetGeneratedContent_video ''a'' ''blob:bytes'', SetBatchJob_progress 1,
       SetGeneratingState_video ''a'' False,
       SetGeneratingState_video ''b'' True, Call_generateVideo ''b'',
       Asked (GenerateVideos ''key-1'' (requestPayload ''b'' V_16_9 8 True None None)),
       SetError ''video.error.apiFail quota exceeded'', SetBatchJob_progress 2,
       SetGeneratingState_video ''b'' False,
       SetBatchJob None]"
  by (simp add: handleGenerateAllVideos_def three_ideas_def videos_begin_fields
          iteration_succeeded_fields iteration_failed_fields batch_service_serves
          batch_service_refuses setBatchJob_def errorMessage_of_def)

lemma pending_run_timeline:
  "map_option timeline (video_waits (pending_service ''b'') (\<lambda>k. k) (ideas three_ideas)
            (videos_begin (three_ideas, [])))
   = Some [SetError '''', SetBatchJob (Some \<lparr>job_type = videos, progress = 0, total = 3\<rparr>),
       SetGeneratingState_video ''a'' True, Call_generateVideo ''a'',
       Asked (GenerateVideos ''key-1'' (requestPayload ''a'' V_16_9 8 True None None)),
       Asked (Fetch ''https://video.test/1?alt=media&key=key-1''),
       SetGeneratedContent_video ''a'' ''blob:bytes'', SetBatchJob_progress 1,
       SetGeneratingState_video ''a'' False,
       SetGeneratingState_video ''b'' True, Call_generateVideo ''b'']"
  by (simp add: three_ideas_def videos_begin_fields
          iteration_succeeded_fields pending_service_serves pending_service_waits
          call_generateVideo_def setGeneratingState_video_def)

text \<open>
  Claim C6. Setter calls, calls of the pipeline and requests are in one timeline, in the
  order in which the handler makes them. In every batch started with a key selected, the
  timeline is the two opening calls followed by one block for each pass of the loop, the
  blocks being in the order of the list and each pass being run from the log of requests
  left by the pass before it. The block of a pass is: the generating flag of its prompt set,
  the call of the pipeline, the requests of this pipeline up to its settlement, the video
  stored or the error set, the progress set to the number of passes made, and the generating
  flag of its prompt reset. So the call of the pipeline of prompt \<open>i + 1\<close>, and each of its
  requests, comes after the reset of the generating flag of prompt \<open>i\<close>, which comes after
  the progress increment of prompt \<open>i\<close>, which comes after the settlement of its pipeline.

  When the handler returns, either all prompts had a successful pass, or the last pass made
  is the first that failed; \<^verbatim>\<open>setBatchJob(null)\<close> ends the timeline. When the handler never
  returns, the passes made are complete and successful, the pipeline of the next prompt
  never settles, and the call of this pipeline is the last action of the handler, which is
  waiting for it: no later prompt is started.
\<close>

theorem video_batch_items_run_one_after_another:
  assumes "isKeyReady st"
  shows "case handleGenerateAllVideos env t (st, log) of
           Some r \<Rightarrow>
             (\<exists>passes.
                  passes_ran env log passes
                \<and> prefix (map fst passes) (ideas st)
                \<and> ((list_all succeeded passes \<and> map fst passes = ideas st)
                   \<or> (\<exists>oks idea asked err. passes = oks @ [(idea, asked, Inl err)]
                         \<and> list_all succeeded oks))
                \<and> timeline r
                    = [SetError '''',
                       SetBatchJob (Some \<lparr>job_type = videos, progress = 0,
                                          total = length (ideas st)\<rparr>)]
                      @ passes_actions t 0 passes @ [SetBatchJob None]
                \<and> net r = log @ passes_requests passes
                \<and> video_waits env t (ideas st) (videos_begin (st, log)) = None)
         | None \<Rightarrow>
             (\<exists>passes idea w.
                  prefix (map fst passes @ [idea]) (ideas st)
                \<and> passes_ran env log passes
                \<and> list_all succeeded passes
                \<and> generateVideo env idea V_16_9 8 True None None (log @ passes_requests passes)
                    = None
                \<and> video_waits env t (ideas st) (videos_begin (st, log)) = Some w
                \<and> timeline w
                    = [SetError '''',
                       SetBatchJob (Some \<lparr>job_type = videos, progress = 0,
                                          total = length (ideas st)\<rparr>)]
                      @ passes_actions t 0 passes
                      @ [SetGeneratingState_video idea True, Call_generateVideo idea]
                \<and> net w = log @ passes_requests passes)"
proof (cases "video_loop env t (ideas st) (videos_begin (st, log))")
  case None
  then have handler: "handleGenerateAllVideos env t (st, log) = None"
    using assms by (simp add: handleGenerateAllVideos_def)
  from video_loop_waits [OF None] show ?thesis
    unfolding handler by (simp add: videos_begin_fields)
next
  case (Some r')
  then have handler: "handleGenerateAllVideos env t (st, log) = Some (setBatchJob None r')"
    using assms by (simp add: handleGenerateAllVideos_def)
  from video_loop_returns [OF Some] obtain passes where p:
    "passes_ran env log passes" "prefix (map fst passes) (ideas st)"
    "(list_all succeeded passes \<and> map fst passes = ideas st \<and> broke r' = False)
       \<or> (\<exists>oks idea asked err. passes = oks @ [(idea, asked, Inl err)]
             \<and> list_all succeeded oks \<and> broke r')"
    "timeline r' = [SetError '''',
                    SetBatchJob (Some \<lparr>job_type = videos, progress = 0,
                                       total = length (ideas st)\<rparr>)]
                   @ passes_actions t 0 passes"
    "net r' = log @ passes_requests passes"
    "video_waits env t (ideas st) (videos_begin (st, log)) = None"
    by (auto simp: videos_begin_fields)
  from p(3) have c: "(list_all succeeded passes \<and> map fst passes = ideas st)
       \<or> (\<exists>oks idea asked err. passes = oks @ [(idea, asked, Inl err)]
             \<and> list_all succeeded oks)"
    by blast
  have "passes_ran env log passes
      \<and> prefix (map fst passes) (ideas st)
      \<and> ((list_all succeeded passes \<and> map fst passes = ideas st)
         \<or> (\<exists>oks idea asked err. passes = oks @ [(idea, asked, Inl err)]
               \<and> list_all succeeded oks))
      \<and> timeline (setBatchJob None r')
          = [SetError '''',
             SetBatchJob (Some \<lparr>job_type = videos, progress = 0,
                                total = length (ideas st)\<rparr>)]
            @ passes_actions t 0 passes @ [SetBatchJob None]
      \<and> net (setBatchJob None r') = log @ passes_requests passes
      \<and> video_waits env t (ideas st) (videos_begin (st, log)) = None"
    using p(1,2,4,5,6) c by (simp add: setBatchJob_def)
  then have "\<exists>passes. passes_ran env log passes
      \<and> prefix (map fst passes) (ideas st)
      \<and> ((list_all succeeded passes \<and> map fst passes = ideas st)
         \<or> (\<exists>oks idea asked err. passes = oks @ [(idea, asked, Inl err)]
               \<and> list_all succeeded oks))
      \<and> timeline (setBatchJob None r')
          = [SetError '''',
             SetBatchJob (Some \<lparr>job_type = videos, progress = 0,
                                total = length (ideas st)\<rparr>)]
            @ passes_actions t 0 passes @ [SetBatchJob None]
      \<and> net (setBatchJob None r') = log @ passes_requests passes
      \<and> video_waits env t (ideas st) (videos_begin (st, log)) = None"
    by (rule exI)
  then show ?thesis unfolding handler by (simp only: option.case)
qed

theorem video_batch_items_run_one_after_another_witness:
  "isKeyReady three_ideas
   \<and> (\<exists>r passes.
          handleGenerateAllVideos (batch_service ''b'') (\<lambda>k. k) (three_ideas, []) = Some r
        \<and> passes_ran (batch_service ''b'') [] passes
        \<and> timeline r
            = [SetError '''', SetBatchJob (Some \<lparr>job_type = videos, progress = 0, total = 3\<rparr>)]
              @ passes_actions (\<lambda>k. k) 0 passes @ [SetBatchJob None])
   \<and> (\<exists>passes idea w.
          handleGenerateAllVideos (pending_service ''b'') (\<lambda>k. k) (three_ideas, []) = None
        \<and> passes_ran (pending_service ''b'') [] passes
        \<and> video_waits (pending_service ''b'') (\<lambda>k. k) (ideas three_ideas)
            (videos_begin (three_ideas, [])) = Some w
        \<and> timeline w
            = [SetError '''', SetBatchJob (Some \<lparr>job_type = videos, progress = 0, total = 3\<rparr>)]
              @ passes_actions (\<lambda>k. k) 0 passes
              @ [SetGeneratingState_video idea True, Call_generateVideo idea])"
proof -
  have ready: "isKeyReady three_ideas" and n: "length (ideas three_ideas) = 3"
    and ideas: "ideas three_ideas = [''a'', ''b'', ''c'']"
    by (simp_all add: three_ideas_def)
  have returns: "\<exists>r. handleGenerateAllVideos (batch_service ''b'') (\<lambda>k. k) (three_ideas, [])
                    = Some r"
    by (simp add: handleGenerateAllVideos_def ready ideas videos_begin_fields
          iteration_succeeded_fields batch_service_serves batch_service_refuses)
  have waits: "handleGenerateAllVideos (pending_service ''b'') (\<lambda>k. k) (three_ideas, []) = None"
    by (simp add: handleGenerateAllVideos_def ready ideas videos_begin_fields
          iteration_succeeded_fields pending_service_serves pending_service_waits)
  have one: "\<exists>r passes.
          handleGenerateAllVideos (batch_service ''b'') (\<lambda>k. k) (three_ideas, []) = Some r
        \<and> passes_ran (batch_service ''b'') [] passes
        \<and> timeline r
            = [SetError '''', SetBatchJob (Some \<lparr>job_type = videos, progress = 0, total = 3\<rparr>)]
              @ passes_actions (\<lambda>k. k) 0 passes @ [SetBatchJob None]"
    using video_batch_items_run_one_after_another
      [OF ready, where env = "batch_service ''b''" and t = "\<lambda>k. k" and log = "[]"] returns
    by (auto simp: n)
  have two: "\<exists>passes idea w.
          handleGenerateAllVideos (pending_service ''b'') (\<lambda>k. k) (three_ideas, []) = None
        \<and> passes_ran (pending_service ''b'') [] passes
        \<and> video_waits (pending_service ''b'') (\<lambda>k. k) (ideas three_ideas)
            (videos_begin (three_ideas, [])) = Some w
        \<and> timeline w
            = [SetError '''', SetBatchJob (Some \<lparr>job_type = videos, progress = 0, total = 3\<rparr>)]
              @ passes_actions (\<lambda>k. k) 0 passes
              @ [SetGeneratingState_video idea True, Call_generateVideo idea]"
    using video_batch_items_run_one_after_another
      [OF ready, where env = "pending_service ''b''" and t = "\<lambda>k. k" and log = "[]"] waits
    by (auto simp: n)
  from ready one two show ?thesis by blast
qed


section \<open>The parallel image batch\<close>

text \<open>
  A call of the image pipeline makes one request when a key is there, and none when there is
  no key: then the constructor of the client throws and the promise is rejected at once.
\<close>

lemma generateImageFromPrompt_log:
  "snd (generateImageFromPrompt env wording ratio log)
   = (case API_KEY env log of
        None \<Rightarrow> log
      | Some k \<Rightarrow> log @ [GenerateImages (Some k) ''imagen-4.0-generate-001'' wording 1
                           ''image/jpeg'' ratio])"
  by (simp add: generateImageFromPrompt_def GoogleGenAI_new_def Let_def
        split: sum.splits option.splits)

lemma generateImageFromPrompt_no_key:
  "API_KEY env log = None
   \<Longrightarrow> generateImageFromPrompt env wording ratio log = (Inl missing_key, log)"
  by (simp add: generateImageFromPrompt_def GoogleGenAI_new_def)

lemma requested_images_append:
  "requested_images (xs @ ys) = requested_images xs @ requested_images ys"
  by (induction xs rule: requested_images.induct) simp_all

lemma called_images_append:
  "called_images (xs @ ys) = called_images xs @ called_images ys"
  by (induction xs rule: called_images.induct) simp_all

lemma called_images_Asked: "called_images (map Asked xs) = []"
  by (induction xs) simp_all

text \<open>
  Starting the calls: one promise for each prompt, the state unchanged, and in the timeline
  nothing but the calls of the pipeline, in list order, and their requests.
\<close>

lemma start_images_prompts:
  "start_images env prompts s = (ps, s1) \<Longrightarrow> map fst ps = prompts"
  by (induction prompts arbitrary: s ps s1) (auto split: prod.splits)

lemma start_images_ui:
  "start_images env prompts s = (ps, s1) \<Longrightarrow> ui s1 = ui s"
proof (induction prompts arbitrary: s ps s1)
  case Nil
  then show ?case by simp
next
  case (Cons idea rest)
  obtain outcome l1 where g: "generateImageFromPrompt env idea AR_16_9 (net s) = (outcome, l1)"
    by (cases "generateImageFromPrompt env idea AR_16_9 (net s)")
  let ?s' = "requests_made l1 (s\<lparr>timeline := timeline s @ [Call_generateImageFromPrompt idea]\<rparr>)"
  obtain qs where "start_images env rest ?s' = (qs, s1)"
    using Cons.prems g by (auto split: prod.splits)
  from Cons.IH [OF this] show ?case by (simp add: requests_made_def)
qed

lemma start_images_timeline:
  "start_images env prompts s = (ps, s1)
   \<Longrightarrow> \<exists>started. timeline s1 = timeline s @ started
         \<and> list_all is_call_or_request started \<and> called_images started = prompts"
proof (induction prompts arbitrary: s ps s1)
  case Nil
  then show ?case by simp
next
  case (Cons idea rest)
  obtain outcome l1 where g: "generateImageFromPrompt env idea AR_16_9 (net s) = (outcome, l1)"
    by (cases "generateImageFromPrompt env idea AR_16_9 (net s)")
  let ?s' = "requests_made l1 (s\<lparr>timeline := timeline s @ [Call_generateImageFromPrompt idea]\<rparr>)"
  let ?first = "Call_generateImageFromPrompt idea # map Asked (drop (length (net s)) l1)"
  have tl: "timeline ?s' = timeline s @ ?first"
    by (simp add: requests_made_def)
  obtain qs where "start_images env rest ?s' = (qs, s1)"
    using Cons.prems g by (auto split: prod.splits)
  from Cons.IH [OF this] obtain started where st:
    "timeline s1 = timeline ?s' @ started" "list_all is_call_or_request started"
    "called_images started = rest"
    by blast
  have "timeline s1 = timeline s @ (?first @ started)"
    using st(1) tl by simp
  moreover have "list_all is_call_or_request (?first @ started)"
    using st(2) by (auto simp: list_all_iff)
  moreover have "called_images (?first @ started) = idea # rest"
    using st(3) by (simp add: called_images_append called_images_Asked)
  ultimately show ?case by blast
qed

lemma start_images_requests:
  "start_images env prompts s = (ps, s1) \<Longrightarrow> \<forall>l. API_KEY env l \<noteq> None
   \<Longrightarrow> requested_images (net s1) = requested_images (net s) @ prompts"
proof (induction prompts arbitrary: s ps s1)
  case Nil
  then show ?case by simp
next
  case (Cons idea rest)
  obtain outcome l1 where g: "generateImageFromPrompt env idea AR_16_9 (net s) = (outcome, l1)"
    by (cases "generateImageFromPrompt env idea AR_16_9 (net s)")
  from Cons.prems(2) obtain k where "API_KEY env (net s) = Some k" by auto
  then have "l1 = net s @ [GenerateImages (Some k) ''imagen-4.0-generate-001'' idea 1
              ''image/jpeg'' AR_16_9]"
    using generateImageFromPrompt_log [of env idea AR_16_9 "net s"] g by simp
  then have l1: "requested_images l1 = requested_images (net s) @ [idea]"
    by (simp add: requested_images_append)
  let ?s' = "requests_made l1 (s\<lparr>timeline := timeline s @ [Call_generateImageFromPrompt idea]\<rparr>)"
  have net': "net ?s' = l1" by (simp add: requests_made_def)
  obtain qs where "start_images env rest ?s' = (qs, s1)"
    using Cons.prems g by (auto split: prod.splits)
  from Cons.IH [OF this Cons.prems(2)] l1 net' show ?case by simp
qed

lemma start_images_no_key:
  "start_images env prompts s = (ps, s1) \<Longrightarrow> \<forall>l. API_KEY env l = None
   \<Longrightarrow> net s1 = net s \<and> ps = map (\<lambda>idea. (idea, Inl missing_key)) prompts"
proof (induction prompts arbitrary: s ps s1)
  case Nil
  then show ?case by simp
next
  case (Cons idea rest)
  have g: "generateImageFromPrompt env idea AR_16_9 (net s) = (Inl missing_key, net s)"
    using Cons.prems(2) by (simp add: generateImageFromPrompt_no_key)
  let ?s' = "requests_made (net s)
               (s\<lparr>timeline := timeline s @ [Call_generateImageFromPrompt idea]\<rparr>)"
  have net': "net ?s' = net s" by (simp add: requests_made_def)
  obtain qs where q: "start_images env rest ?s' = (qs, s1)"
    and ps: "ps = (idea, Inl missing_key) # qs"
    using Cons.prems(1) g by (auto split: prod.splits)
  from Cons.IH [OF q Cons.prems(2)] net' ps show ?case by simp
qed

text \<open>What the settlement of a promise, and of several in a row, does to the run.\<close>

lemma settle_image_batchJob:
  "i < length ps \<Longrightarrow>
   batchJob (ui (settle_image ps s i))
   = map_option (\<lambda>j. j\<lparr>progress := progress j + 1\<rparr>) (batchJob (ui s))"
  by (simp add: settle_image_def setGeneratingState_image_def setBatchJob_increment_def
        setGeneratedContent_image_def split: prod.splits sum.splits option.splits)

lemma settle_all_batchJob:
  "\<forall>i \<in> set order. i < length ps \<Longrightarrow>
   batchJob (ui (foldl (settle_image ps) s order))
   = map_option (\<lambda>j. j\<lparr>progress := progress j + length order\<rparr>) (batchJob (ui s))"
proof (induction order arbitrary: s)
  case Nil
  then show ?case by (simp add: option.map_ident)
next
  case (Cons i order)
  then show ?case
    by (simp add: settle_image_batchJob option.map_comp comp_def add.assoc)
qed

lemma settle_image_timeline:
  "i < length ps \<Longrightarrow> timeline (settle_image ps s i) = timeline s @ settlement ps i"
  by (simp add: settle_image_def settlement_def setGeneratingState_image_def
        setBatchJob_increment_def setGeneratedContent_image_def split: prod.splits sum.splits)

lemma settle_all_timeline:
  "\<forall>i \<in> set order. i < length ps \<Longrightarrow>
   timeline (foldl (settle_image ps) s order) = timeline s @ concat (map (settlement ps) order)"
  by (induction order arbitrary: s) (simp_all add: settle_image_timeline)

lemma settle_image_net: "net (settle_image ps s i) = net s"
  by (simp add: settle_image_def setGeneratingState_image_def
        setBatchJob_increment_def setGeneratedContent_image_def split: prod.splits sum.splits)

lemma settle_all_net: "net (foldl (settle_image ps) s order) = net s"
  by (induction order arbitrary: s) (simp_all add: settle_image_net)

lemma settle_image_content_other:
  "\<not> (i < length ps \<and> fst (ps ! i) = idea \<and> \<not> isl (snd (ps ! i)))
   \<Longrightarrow> generatedContent (ui (settle_image ps s i)) idea = generatedContent (ui s) idea"
  by (auto simp: settle_image_def setGeneratingState_image_def
        setBatchJob_increment_def setGeneratedContent_image_def split: prod.splits sum.splits)

lemma settle_image_content_success:
  "i < length ps \<Longrightarrow> ps ! i = (idea, Inr url)
   \<Longrightarrow> map_option image (generatedContent (ui (settle_image ps s i)) idea) = Some (Some url)"
  by (simp add: settle_image_def setGeneratingState_image_def
        setBatchJob_increment_def setGeneratedContent_image_def)

lemma settle_all_content_unchanged:
  "\<forall>i \<in> set order. \<not> (i < length ps \<and> fst (ps ! i) = idea \<and> \<not> isl (snd (ps ! i)))
   \<Longrightarrow> generatedContent (ui (foldl (settle_image ps) s order)) idea
       = generatedContent (ui s) idea"
  by (induction order arbitrary: s) (simp_all add: settle_image_content_other)

lemma settle_all_content_last_success:
  assumes "i < length ps" and "ps ! i = (idea, Inr url)"
    and "\<forall>j \<in> set after. \<not> (j < length ps \<and> fst (ps ! j) = idea \<and> \<not> isl (snd (ps ! j)))"
  shows "map_option image
           (generatedContent (ui (foldl (settle_image ps) s (before @ i # after))) idea)
         = Some (Some url)"
proof -
  let ?s1 = "settle_image ps (foldl (settle_image ps) s before) i"
  have "generatedContent (ui (foldl (settle_image ps) ?s1 after)) idea
        = generatedContent (ui ?s1) idea"
    using assms(3) by (rule settle_all_content_unchanged)
  then show ?thesis
    using settle_image_content_success [OF assms(1,2)] by simp
qed

lemma images_begin_fields:
  "generatedContent (ui (images_begin (st, log))) = generatedContent st"
  "batchJob (ui (images_begin (st, log)))
     = Some \<lparr>job_type = images, progress = 0, total = length (ideas st)\<rparr>"
  "net (images_begin (st, log)) = log"
  "timeline (images_begin (st, log))
     = [SetError '''',
        SetBatchJob (Some \<lparr>job_type = images, progress = 0, total = length (ideas st)\<rparr>),
        SetGeneratingState_all (ideas st)]"
  by (simp_all add: images_begin_def setGeneratingState_all_def setBatchJob_def setError_def)

text \<open>The image pipeline with the services of the batches.\<close>

lemma batch_service_image:
  "generateImageFromPrompt (batch_service refused) wording AR_16_9 log
   = (if wording = refused then Inl (Error ''quota exceeded'')
      else Inr (''data:image/jpeg;base64,image of '' @ wording),
      log @ [GenerateImages (Some ''key-1'') ''imagen-4.0-generate-001'' wording 1
               ''image/jpeg'' AR_16_9])"
  by (simp add: generateImageFromPrompt_def batch_service_def Let_def first_imageBytes_def
        truthy_def image_catch_def GoogleGenAI_new_def)

lemma drawing_service_image:
  "generateImageFromPrompt drawing_service wording AR_16_9 log
   = (Inr (''data:image/jpeg;base64,'' @ replicate (length log + 1) CHR ''I''),
      log @ [GenerateImages (Some ''key-1'') ''imagen-4.0-generate-001'' wording 1
               ''image/jpeg'' AR_16_9])"
  by (simp add: generateImageFromPrompt_def drawing_service_def Let_def first_imageBytes_def
        truthy_def image_catch_def GoogleGenAI_new_def)

text \<open>
  Claim C3, as stated, fails in two places. First, where it says that the image slot of
  every failed prompt is left empty: the batch is run again on a list whose only prompt got
  its image from an earlier batch; this time the call for the prompt fails, and at the end
  the slot of the prompt still holds the earlier image. Second, where it says that the image
  of every successful prompt is retained: the list holds the same text twice, both calls
  succeed, each with its own picture, and at the end the content map has one entry, with the
  picture of the call that settled last; the picture of the first call is lost.
\<close>

theorem failed_image_slot_keeps_earlier_image:
  "fst (generateImageFromPrompt (batch_service ''a'') ''a'' AR_16_9 [])
     = Inl (Error ''quota exceeded'')
   \<and> map_option image
       (generatedContent
          (ui (handleGenerateAllImages (batch_service ''a'') (\<lambda>k. k) [0]
                 (one_idea_with_image, []))) ''a'')
     = Some (Some ''image of a'')
   \<and> fst (generateImageFromPrompt drawing_service ''a'' AR_16_9 [])
     = Inr ''data:image/jpeg;base64,I''
   \<and> generatedContent
        (ui (handleGenerateAllImages drawing_service (\<lambda>k. k) [0, 1]
               (twice_the_same_idea, [])))
     = [''a'' \<mapsto> \<lparr>image = Some ''data:image/jpeg;base64,II'', video = None\<rparr>]"
  by (simp add: batch_service_image drawing_service_image handleGenerateAllImages_def
        images_all_settled_def one_idea_with_image_def twice_the_same_idea_def
        settle_image_def images_begin_def requests_made_def
        setGeneratingState_all_def setBatchJob_def setError_def setGeneratingState_image_def
        setBatchJob_increment_def setGeneratedContent_image_def content_of_def fun_eq_iff)


text \<open>
  Claim C3, amended. In an image batch over \<open>N\<close> prompts, started with a key selected, whose
  \<open>N\<close> promises settle, each once, in any order:

  \<^item> the timeline opens with \<^verbatim>\<open>setError('')\<close>, \<^verbatim>\<open>setBatchJob({images, 0, N})\<close> and the setting of
    the generating flags; then come the calls of the pipeline, one for every prompt of the
    list, in list order, with their requests and nothing else, so before any settlement and
    whatever the outcomes are; with a key in the environment there is one request for each
    prompt, and without a key there is no request and every promise is rejected by the
    constructor of the client;
  \<^item> then come the settlements, in their order, each with its stored image if it is a success,
    its progress increment and the reset of its generating flag; after \<open>n\<close> settlements,
    successes or failures, the progress of the batch job is \<open>n\<close>, so it reaches \<open>N\<close>;
  \<^item> \<^verbatim>\<open>setBatchJob(null)\<close> is the last action of the timeline, after the \<open>N\<close> settlements, and
    the batch job is cleared at the end;
  \<^item> the image slot of a prompt text holds the image of the successful call for this text
    that settled last; so, when the prompts of the list are pairwise different, the image of
    every successful prompt is retained;
  \<^item> a prompt text without a successful call keeps the entry it had before the batch, so that
    its image slot is empty if it was empty before.
\<close>

theorem image_batch_isolates_failures:
  assumes "isKeyReady st"
    and "distinct order" and "set order = {..<length (ideas st)}"
    and "start_images env (ideas st) (images_begin (st, log)) = (imagePromises, s1)"
    and "final = handleGenerateAllImages env t order (st, log)"
  shows "map fst imagePromises = ideas st
       \<and> (\<exists>started.
              timeline s1
              = [SetError '''',
                 SetBatchJob (Some \<lparr>job_type = images, progress = 0,
                                    total = length (ideas st)\<rparr>),
                 SetGeneratingState_all (ideas st)] @ started
            \<and> list_all is_call_or_request started
            \<and> called_images started = ideas st)
       \<and> ((\<forall>l. API_KEY env l \<noteq> None)
            \<longrightarrow> requested_images (net s1) = requested_images log @ ideas st)
       \<and> ((\<forall>l. API_KEY env l = None)
            \<longrightarrow> net s1 = log
                \<and> imagePromises = map (\<lambda>idea. (idea, Inl missing_key)) (ideas st))
       \<and> (\<forall>n \<le> length (ideas st).
            batchJob (ui (images_all_settled env (take n order) (st, log)))
            = Some \<lparr>job_type = images, progress = n, total = length (ideas st)\<rparr>)
       \<and> timeline final
           = timeline s1 @ concat (map (settlement imagePromises) order) @ [SetBatchJob None]
       \<and> net final = net s1
       \<and> batchJob (ui final) = None
       \<and> (\<forall>before i after idea url.
              order = before @ i # after \<and> imagePromises ! i = (idea, Inr url)
              \<and> (\<forall>j \<in> set after. fst (imagePromises ! j) = idea
                                    \<longrightarrow> isl (snd (imagePromises ! j)))
            \<longrightarrow> map_option image (generatedContent (ui final) idea) = Some (Some url))
       \<and> (distinct (ideas st)
            \<longrightarrow> (\<forall>i url. i < length (ideas st) \<and> snd (imagePromises ! i) = Inr url
                   \<longrightarrow> map_option image (generatedContent (ui final) (ideas st ! i))
                       = Some (Some url)))
       \<and> (\<forall>idea. (\<forall>url. (idea, Inr url) \<notin> set imagePromises)
            \<longrightarrow> generatedContent (ui final) idea = generatedContent st idea)"
proof -
  let ?begin = "images_begin (st, log)"
  have prompts: "map fst imagePromises = ideas st"
    using start_images_prompts [OF assms(4)] .
  have len: "length imagePromises = length (ideas st)"
    using prompts by (metis length_map)
  have valid: "\<forall>i \<in> set order. i < length imagePromises"
    using assms(3) len by simp
  have n_order: "length order = length (ideas st)"
    using assms(2,3) distinct_card [of order] by simp
  have s1_ui: "ui s1 = ui ?begin"
    using start_images_ui [OF assms(4)] .
  have settled: "images_all_settled env order (st, log)
                 = foldl (settle_image imagePromises) s1 order" for order
    by (simp add: images_all_settled_def assms(4))
  have final: "final = setBatchJob None (foldl (settle_image imagePromises) s1 order)"
    using assms(1,5) by (simp add: handleGenerateAllImages_def settled)
  have content: "generatedContent (ui final)
                 = generatedContent (ui (foldl (settle_image imagePromises) s1 order))"
    by (simp add: final setBatchJob_def)
  have b: "\<exists>started.
              timeline s1
              = [SetError '''',
                 SetBatchJob (Some \<lparr>job_type = images, progress = 0,
                                    total = length (ideas st)\<rparr>),
                 SetGeneratingState_all (ideas st)] @ started
            \<and> list_all is_call_or_request started
            \<and> called_images started = ideas st"
    using start_images_timeline [OF assms(4)] by (simp add: images_begin_fields)
  have c: "(\<forall>l. API_KEY env l \<noteq> None)
            \<longrightarrow> requested_images (net s1) = requested_images log @ ideas st"
    using start_images_requests [OF assms(4)] by (simp add: images_begin_fields)
  have c': "(\<forall>l. API_KEY env l = None)
            \<longrightarrow> net s1 = log
                \<and> imagePromises = map (\<lambda>idea. (idea, Inl missing_key)) (ideas st)"
    using start_images_no_key [OF assms(4)] by (simp add: images_begin_fields)
  have d: "\<forall>n \<le> length (ideas st).
            batchJob (ui (images_all_settled env (take n order) (st, log)))
            = Some \<lparr>job_type = images, progress = n, total = length (ideas st)\<rparr>"
  proof (intro allI impI)
    fix n assume n: "n \<le> length (ideas st)"
    have "\<forall>i \<in> set (take n order). i < length imagePromises"
      using valid by (meson in_set_takeD)
    from settle_all_batchJob [OF this, of s1] n n_order
    show "batchJob (ui (images_all_settled env (take n order) (st, log)))
            = Some \<lparr>job_type = images, progress = n, total = length (ideas st)\<rparr>"
      by (simp add: settled s1_ui images_begin_fields)
  qed
  have e: "timeline final
           = timeline s1 @ concat (map (settlement imagePromises) order) @ [SetBatchJob None]"
    using settle_all_timeline [OF valid, of s1] by (simp add: final setBatchJob_def)
  have e': "net final = net s1"
    by (simp add: final setBatchJob_def settle_all_net)
  have f: "batchJob (ui final) = None"
    by (simp add: final setBatchJob_def)
  have g: "map_option image (generatedContent (ui final) idea) = Some (Some url)"
    if h: "order = before @ i # after" "imagePromises ! i = (idea, Inr url)"
      "\<forall>j \<in> set after. fst (imagePromises ! j) = idea \<longrightarrow> isl (snd (imagePromises ! j))"
    for before i after idea url
  proof -
    have i: "i < length imagePromises" using valid h(1) by simp
    have "\<forall>j \<in> set after. \<not> (j < length imagePromises \<and> fst (imagePromises ! j) = idea
                               \<and> \<not> isl (snd (imagePromises ! j)))"
      using h(3) by blast
    from settle_all_content_last_success [OF i h(2) this, of s1 before]
    show ?thesis by (simp add: content h(1))
  qed
  have g': "map_option image (generatedContent (ui final) (ideas st ! i)) = Some (Some url)"
    if d: "distinct (ideas st)" and i: "i < length (ideas st)"
      and u: "snd (imagePromises ! i) = Inr url"
    for i url
  proof -
    have "i \<in> set order" using assms(3) i by simp
    then obtain before after where split: "order = before @ i # after"
      by (auto dest: split_list)
    have fst_nth: "fst (imagePromises ! j) = ideas st ! j" if "j < length (ideas st)" for j
      using prompts that len by (metis nth_map)
    have this_one: "imagePromises ! i = (ideas st ! i, Inr url)"
      using fst_nth [OF i] u by (cases "imagePromises ! i") simp
    have others: "\<forall>j \<in> set after. fst (imagePromises ! j) = ideas st ! i
                     \<longrightarrow> isl (snd (imagePromises ! j))"
    proof (intro ballI impI)
      fix j assume j: "j \<in> set after" and same: "fst (imagePromises ! j) = ideas st ! i"
      have "j \<in> set order" using j split by simp
      then have jn: "j < length (ideas st)" using assms(3) by simp
      have "j \<noteq> i" using assms(2) j split by auto
      moreover have "ideas st ! j = ideas st ! i" using same fst_nth [OF jn] by simp
      ultimately have False using d i jn by (simp add: nth_eq_iff_index_eq)
      then show "isl (snd (imagePromises ! j))" ..
    qed
    from g [OF split this_one others] show ?thesis .
  qed
  have k: "generatedContent (ui final) idea = generatedContent st idea"
    if none: "\<forall>url. (idea, Inr url) \<notin> set imagePromises" for idea
  proof -
    have "\<forall>i \<in> set order. \<not> (i < length imagePromises \<and> fst (imagePromises ! i) = idea
             \<and> \<not> isl (snd (imagePromises ! i)))"
    proof
      fix i assume "i \<in> set order"
      show "\<not> (i < length imagePromises \<and> fst (imagePromises ! i) = idea
             \<and> \<not> isl (snd (imagePromises ! i)))"
      proof
        assume h: "i < length imagePromises \<and> fst (imagePromises ! i) = idea
             \<and> \<not> isl (snd (imagePromises ! i))"
        then obtain u where "imagePromises ! i = (idea, Inr u)"
          by (cases "imagePromises ! i"; cases "snd (imagePromises ! i)") auto
        with h have "(idea, Inr u) \<in> set imagePromises" by (metis nth_mem)
        with none show False by blast
      qed
    qed
    from settle_all_content_unchanged [OF this, of s1]
    show ?thesis by (simp add: content s1_ui images_begin_fields)
  qed
  from g have g_all: "\<forall>before i after idea url.
              order = before @ i # after \<and> imagePromises ! i = (idea, Inr url)
              \<and> (\<forall>j \<in> set after. fst (imagePromises ! j) = idea
                                    \<longrightarrow> isl (snd (imagePromises ! j)))
            \<longrightarrow> map_option image (generatedContent (ui final) idea) = Some (Some url)"
    by blast
  from g' have g'_all: "distinct (ideas st)
            \<longrightarrow> (\<forall>i url. i < length (ideas st) \<and> snd (imagePromises ! i) = Inr url
                   \<longrightarrow> map_option image (generatedContent (ui final) (ideas st ! i))
                       = Some (Some url))"
    by blast
  from k have k_all: "\<forall>idea. (\<forall>url. (idea, Inr url) \<notin> set imagePromises)
            \<longrightarrow> generatedContent (ui final) idea = generatedContent st idea"
    by blast
  from prompts b c c' d e e' f g_all g'_all k_all show ?thesis by (intro conjI)
qed


theorem image_batch_isolates_failures_witness:
  "map_option image
     (generatedContent
        (ui (handleGenerateAllImages (batch_service ''b'') (\<lambda>k. k) [2, 0, 1] (three_ideas, [])))
        ''a'')
     = Some (Some ''data:image/jpeg;base64,image of a'')
   \<and> map_option image
     (generatedContent
        (ui (handleGenerateAllImages (batch_service ''b'') (\<lambda>k. k) [2, 0, 1] (three_ideas, [])))
        ''c'')
     = Some (Some ''data:image/jpeg;base64,image of c'')
   \<and> generatedContent
        (ui (handleGenerateAllImages (batch_service ''b'') (\<lambda>k. k) [2, 0, 1] (three_ideas, [])))
        ''b'' = None
   \<and> batchJob (ui (images_all_settled (batch_service ''b'') [2, 0, 1] (three_ideas, [])))
     = Some \<lparr>job_type = images, progress = 3, total = 3\<rparr>
   \<and> batchJob
        (ui (handleGenerateAllImages (batch_service ''b'') (\<lambda>k. k) [2, 0, 1] (three_ideas, [])))
     = None
   \<and> timeline
        (handleGenerateAllImages (batch_service ''b'') (\<lambda>k. k) [2, 0, 1] (three_ideas, []))
     = [SetError '''', SetBatchJob (Some \<lparr>job_type = images, progress = 0, total = 3\<rparr>),
        SetGeneratingState_all [''a'', ''b'', ''c''],
        Call_generateImageFromPrompt ''a'',
        Asked (GenerateImages (Some ''key-1'') ''imagen-4.0-generate-001'' ''a'' 1 ''image/jpeg''
                 AR_16_9),
        Call_generateImageFromPrompt ''b'',
        Asked (GenerateImages (Some ''key-1'') ''imagen-4.0-generate-001'' ''b'' 1 ''image/jpeg''
                 AR_16_9),
        Call_generateImageFromPrompt ''c'',
        Asked (GenerateImages (Some ''key-1'') ''imagen-4.0-generate-001'' ''c'' 1 ''image/jpeg''
                 AR_16_9),
        Settles 2, SetGeneratedContent_image ''c'' ''data:image/jpeg;base64,image of c'',
        SetBatchJob_increment, SetGeneratingState_image ''c'' False,
        Settles 0, SetGeneratedContent_image ''a'' ''data:image/jpeg;base64,image of a'',
        SetBatchJob_increment, SetGeneratingState_image ''a'' False,
        Settles 1, SetBatchJob_increment, SetGeneratingState_image ''b'' False,
        SetBatchJob None]"
proof -
  let ?env = "batch_service ''b''"
  let ?ps = "[(''a'', Inr ''data:image/jpeg;base64,image of a''),
              (''b'', Inl (Error ''quota exceeded'')),
              (''c'', Inr ''data:image/jpeg;base64,image of c'')]"
  let ?asked = "\<lambda>idea. GenerateImages (Some ''key-1'') ''imagen-4.0-generate-001'' idea 1
                          ''image/jpeg'' AR_16_9"
  let ?s1 = "\<lparr>ui = ui (images_begin (three_ideas, [])),
              net = [?asked ''a'', ?asked ''b'', ?asked ''c''],
              timeline = timeline (images_begin (three_ideas, []))
                @ [Call_generateImageFromPrompt ''a'', Asked (?asked ''a''),
                   Call_generateImageFromPrompt ''b'', Asked (?asked ''b''),
                   Call_generateImageFromPrompt ''c'', Asked (?asked ''c'')]\<rparr>"
  have ready: "isKeyReady three_ideas"
    by (simp add: three_ideas_def)
  have order: "distinct [2, 0, 1 :: nat]" "set [2, 0, 1 :: nat] = {..<length (ideas three_ideas)}"
    by (auto simp: three_ideas_def)
  have ideas: "ideas three_ideas = [''a'', ''b'', ''c'']"
    by (simp add: three_ideas_def)
  have started: "start_images ?env (ideas three_ideas) (images_begin (three_ideas, []))
                 = (?ps, ?s1)"
    by (simp add: ideas batch_service_image requests_made_def images_begin_fields)
  note all = image_batch_isolates_failures [OF ready order started refl, of "\<lambda>k. k"]
  let ?final = "handleGenerateAllImages ?env (\<lambda>k. k) [2, 0, 1] (three_ideas, [])"
  from all have ok: "\<And>i url. i < length (ideas three_ideas) \<Longrightarrow> snd (?ps ! i) = Inr url
       \<Longrightarrow> map_option image (generatedContent (ui ?final) (ideas three_ideas ! i))
           = Some (Some url)"
    by (simp add: ideas)
  from all have ko: "\<And>idea. \<forall>u. (idea, Inr u) \<notin> set ?ps \<Longrightarrow>
       generatedContent (ui ?final) idea = generatedContent three_ideas idea"
    by blast
  from all have steps: "\<forall>n \<le> length (ideas three_ideas).
       batchJob (ui (images_all_settled ?env (take n [2, 0, 1]) (three_ideas, [])))
       = Some \<lparr>job_type = images, progress = n, total = length (ideas three_ideas)\<rparr>"
    by blast
  have prog: "batchJob (ui (images_all_settled ?env [2, 0, 1] (three_ideas, [])))
     = Some \<lparr>job_type = images, progress = 3, total = 3\<rparr>"
    using steps [rule_format, of 3] by (simp add: ideas)
  from all have cleared: "batchJob (ui ?final) = None" by blast
  from all have tl: "timeline ?final
      = timeline ?s1 @ concat (map (settlement ?ps) [2, 0, 1]) @ [SetBatchJob None]"
    by blast
  have a: "map_option image (generatedContent (ui ?final) ''a'')
      = Some (Some ''data:image/jpeg;base64,image of a'')"
    using ok [of 0 "''data:image/jpeg;base64,image of a''"] by (simp add: ideas)
  have c: "map_option image (generatedContent (ui ?final) ''c'')
      = Some (Some ''data:image/jpeg;base64,image of c'')"
    using ok [of 2 "''data:image/jpeg;base64,image of c''"] by (simp add: ideas)
  have b: "generatedContent (ui ?final) ''b'' = None"
    using ko [of "''b''"] by (simp add: three_ideas_def)
  have t: "timeline ?final
     = [SetError '''', SetBatchJob (Some \<lparr>job_type = images, progress = 0, total = 3\<rparr>),
        SetGeneratingState_all [''a'', ''b'', ''c''],
        Call_generateImageFromPrompt ''a'', Asked (?asked ''a''),
        Call_generateImageFromPrompt ''b'', Asked (?asked ''b''),
        Call_generateImageFromPrompt ''c'', Asked (?asked ''c''),
        Settles 2, SetGeneratedContent_image ''c'' ''data:image/jpeg;base64,image of c'',
        SetBatchJob_increment, SetGeneratingState_image ''c'' False,
        Settles 0, SetGeneratedContent_image ''a'' ''data:image/jpeg;base64,image of a'',
        SetBatchJob_increment, SetGeneratingState_image ''a'' False,
        Settles 1, SetBatchJob_increment, SetGeneratingState_image ''b'' False,
        SetBatchJob None]"
    unfolding tl by (simp add: settlement_def images_begin_fields ideas)
  from a b c prog cleared t show ?thesis by simp
qed

end
